theory Spec2Isabelle
  imports Main "HOL-Library.Word"
begin

unbundle bit_operations_syntax

section \<open>Failure as a value\<close>

text \<open>
  The kernel stops in \<open>panic\<close>; C leaves some operations undefined (an index outside an
  array, overflow of a signed counter); a process that sleeps on a lock nobody releases never
  returns.  All three are results of the model: a function that can fail returns
  \<open>error + 'a\<close>.
\<close>

datatype error = Panic string | Undefined string | Blocked string

section \<open>Frame allocator (kalloc.c)\<close>

definition PGSIZE :: "64 word" where "PGSIZE = 4096"
definition KERNBASE :: "64 word" where "KERNBASE = 0x80000000"
definition PHYSTOP :: "64 word" where "PHYSTOP = KERNBASE + 128 * 1024 * 1024"

text \<open>\<open>NPAGES = (PHYSTOP - KERNBASE) / PGSIZE\<close>, \<open>BITS_PER_WORD = 64\<close>,
  \<open>BITMAP_WORDS = (NPAGES + 63) / 64\<close>.\<close>

definition NPAGES :: nat where "NPAGES = 32768"
definition BITS_PER_WORD :: nat where "BITS_PER_WORD = 64"
definition BITMAP_WORDS :: nat where "BITMAP_WORDS = 512"
definition INT_MAX :: int where "INT_MAX = 2147483647"

text \<open>
  The allocator's three statics and the physical memory it zeroes.  Arrays are functions
  from the index; every index the code computes is checked against the array's length
  where the code itself does not check it.  \<open>kernel_end\<close> is the linker symbol \<open>end\<close>: the
  kernel image, code and statics, lies from \<open>KERNBASE\<close> up to it.  The three statics are
  objects of the image, and the model keeps them as fields of their own: a \<open>memset\<close> over a
  frame of the image would overwrite them (and the code), so where the code does that the
  run is not followed further and the result is \<open>Undefined\<close>.
\<close>

record kmem =
  bitmap :: "nat \<Rightarrow> 64 word"
  free_pages_count :: int
  refcount :: "nat \<Rightarrow> int"
  mem :: "64 word \<Rightarrow> 8 word"
  kernel_end :: "64 word"

definition PGROUNDUP :: "64 word \<Rightarrow> 64 word" where
  "PGROUNDUP sz = (sz + PGSIZE - 1) AND NOT (PGSIZE - 1)"

definition PGROUNDDOWN :: "64 word \<Rightarrow> 64 word" where
  "PGROUNDDOWN a = a AND NOT (PGSIZE - 1)"

definition page_index :: "64 word \<Rightarrow> nat" where
  "page_index page = unat (page - KERNBASE) div unat PGSIZE"

definition index_to_page :: "nat \<Rightarrow> 64 word" where
  "index_to_page index = KERNBASE + of_nat index * PGSIZE"

definition bitmap_set :: "nat \<Rightarrow> (nat \<Rightarrow> 64 word) \<Rightarrow> (nat \<Rightarrow> 64 word)" where
  "bitmap_set index bm =
     bm(index div BITS_PER_WORD :=
          bm (index div BITS_PER_WORD) OR push_bit (index mod BITS_PER_WORD) 1)"

definition bitmap_clear :: "nat \<Rightarrow> (nat \<Rightarrow> 64 word) \<Rightarrow> (nat \<Rightarrow> 64 word)" where
  "bitmap_clear index bm =
     bm(index div BITS_PER_WORD :=
          bm (index div BITS_PER_WORD) AND NOT (push_bit (index mod BITS_PER_WORD) 1))"

definition bitmap_test :: "nat \<Rightarrow> (nat \<Rightarrow> 64 word) \<Rightarrow> bool" where
  "bitmap_test index bm =
     (drop_bit (index mod BITS_PER_WORD) (bm (index div BITS_PER_WORD)) AND 1 \<noteq> 0)"

text \<open>\<open>memset(page, 0, n)\<close> on physical memory.\<close>

definition memzero :: "64 word \<Rightarrow> 64 word \<Rightarrow> (64 word \<Rightarrow> 8 word) \<Rightarrow> (64 word \<Rightarrow> 8 word)" where
  "memzero page n m = (\<lambda>a. if a - page < n then 0 else m a)"

text \<open>The scan of one bitmap word, then of the words in order.\<close>

definition free_bit_in_word :: "(nat \<Rightarrow> 64 word) \<Rightarrow> nat \<Rightarrow> nat option" where
  "free_bit_in_word bm i =
     find (\<lambda>j. i * BITS_PER_WORD + j < NPAGES \<and> \<not> bitmap_test (i * BITS_PER_WORD + j) bm)
          [0..<BITS_PER_WORD]"

fun first_free_from :: "(nat \<Rightarrow> 64 word) \<Rightarrow> nat list \<Rightarrow> nat option" where
  "first_free_from bm [] = None"
| "first_free_from bm (i # rest) =
     (if bm i \<noteq> NOT 0
      then (case free_bit_in_word bm i of
              Some j \<Rightarrow> Some (i * BITS_PER_WORD + j)
            | None \<Rightarrow> first_free_from bm rest)
      else first_free_from bm rest)"

definition find_first_free_page :: "(nat \<Rightarrow> 64 word) \<Rightarrow> nat option" where
  "find_first_free_page bm = first_free_from bm [0..<BITMAP_WORDS]"

fun contiguous_from :: "(nat \<Rightarrow> 64 word) \<Rightarrow> int \<Rightarrow> nat list \<Rightarrow> nat \<Rightarrow> int \<Rightarrow> nat option" where
  "contiguous_from bm n [] start count = None"
| "contiguous_from bm n (i # rest) start count =
     (if \<not> bitmap_test i bm
      then (let start' = (if count = 0 then i else start); count' = count + 1
            in if count' = n then Some start' else contiguous_from bm n rest start' count')
      else contiguous_from bm n rest start 0)"

definition find_contiguous_free_pages :: "(nat \<Rightarrow> 64 word) \<Rightarrow> int \<Rightarrow> nat option" where
  "find_contiguous_free_pages bm n = contiguous_from bm n [0..<NPAGES] 0 0"

text \<open>
  \<open>pmm_init\<close> marks the pages from \<open>p\<close> up to \<open>e\<close>.  The index is used unchecked by the
  code; outside the arrays the write is undefined.
\<close>

function mark_range :: "64 word \<Rightarrow> 64 word \<Rightarrow> kmem \<Rightarrow> error + kmem" where
  "mark_range p e s =
     (if p < e
      then (if p < KERNBASE \<or> PHYSTOP \<le> p
            then Inl (Undefined ''pmm_init: index outside bitmap'')
            else mark_range (p + PGSIZE) e
                   (s\<lparr>bitmap := bitmap_set (page_index p) (bitmap s),
                      refcount := (refcount s)(page_index p := 1)\<rparr>))
      else Inr s)"
  by pat_completeness auto
termination
proof (relation "measure (\<lambda>(p, e, s). unat PHYSTOP - unat p)")
  show "wf (measure (\<lambda>(p, e, s). unat PHYSTOP - unat p))" by simp
next
  fix p e :: "64 word" and s :: kmem
  assume "p < e" and b: "\<not> (p < KERNBASE \<or> PHYSTOP \<le> p)"
  from b have lt: "p < PHYSTOP" by (simp add: not_le)
  then have u: "unat p < unat PHYSTOP" by (simp add: word_less_nat_alt)
  have ph: "unat PHYSTOP = 2281701376" by (simp add: PHYSTOP_def KERNBASE_def)
  have "unat (p + PGSIZE) = unat p + 4096"
    using u ph by (simp add: unat_word_ariths PGSIZE_def)
  then show "((p + PGSIZE, e,
      s\<lparr>bitmap := bitmap_set (page_index p) (bitmap s),
        refcount := (refcount s)(page_index p := 1)\<rparr>), p, e, s)
      \<in> measure (\<lambda>(p, e, s). unat PHYSTOP - unat p)"
    using u by simp
qed

declare mark_range.simps [simp del]

definition count_free :: "(nat \<Rightarrow> 64 word) \<Rightarrow> int" where
  "count_free bm = int (length (filter (\<lambda>i. \<not> bitmap_test i bm) [0..<NPAGES]))"

text \<open>
  \<open>pmm_init\<close> clears the bitmap, marks the pages of the bitmap's own size after \<open>end\<close> and
  the pages of the kernel image, and counts the free pages.
\<close>

definition pmm_init :: "kmem \<Rightarrow> error + kmem" where
  "pmm_init s =
     (let e = kernel_end s;
          bitmap_size = of_nat (BITMAP_WORDS * 8);
          bitmap_start = PGROUNDUP e;
          bitmap_end = PGROUNDUP (bitmap_start + bitmap_size)
      in case mark_range bitmap_start bitmap_end (s\<lparr>bitmap := (\<lambda>_. 0)\<rparr>) of
           Inl err \<Rightarrow> Inl err
         | Inr s1 \<Rightarrow>
             (case mark_range KERNBASE e s1 of
                Inl err \<Rightarrow> Inl err
              | Inr s2 \<Rightarrow> Inr (s2\<lparr>free_pages_count := count_free (bitmap s2)\<rparr>)))"

text \<open>The statics before \<open>pmm_init\<close>: zero-initialised.  The image ends at \<open>e\<close>.\<close>

definition boot :: "64 word \<Rightarrow> (64 word \<Rightarrow> 8 word) \<Rightarrow> kmem" where
  "boot e m =
     \<lparr>bitmap = (\<lambda>_. 0), free_pages_count = 0, refcount = (\<lambda>_. 0), mem = m, kernel_end = e\<rparr>"

text \<open>\<open>alloc_page\<close> returns the page and the new state; the null pointer is \<open>0\<close>.\<close>

definition alloc_page :: "kmem \<Rightarrow> 64 word \<times> kmem" where
  "alloc_page s =
     (if free_pages_count s \<le> 0 then (0, s)
      else case find_first_free_page (bitmap s) of
             None \<Rightarrow> (0, s)
           | Some idx \<Rightarrow>
               (let page = index_to_page idx
                in (page, s\<lparr>bitmap := bitmap_set idx (bitmap s),
                             free_pages_count := free_pages_count s - 1,
                             refcount := (refcount s)(idx := 1),
                             mem := memzero page PGSIZE (mem s)\<rparr>)))"

definition invalid_page_address :: "64 word \<Rightarrow> bool" where
  "invalid_page_address page \<longleftrightarrow>
     unat page mod unat PGSIZE \<noteq> 0 \<or> page < KERNBASE \<or> PHYSTOP \<le> page"

definition free_page :: "64 word \<Rightarrow> kmem \<Rightarrow> error + kmem" where
  "free_page page s =
     (if invalid_page_address page then Inl (Panic ''free_page: invalid page address'')
      else let idx = page_index page
           in if \<not> bitmap_test idx (bitmap s)
              then Inl (Panic ''free_page: double free detected'')
              else if refcount s idx \<le> 0
              then Inl (Panic ''free_page: invalid refcount'')
              else let s1 = s\<lparr>refcount := (refcount s)(idx := refcount s idx - 1)\<rparr>
                   in if refcount s1 idx > 0 then Inr s1
                      else if page < kernel_end s
                      then Inl (Undefined ''free_page: memset over the kernel image'')
                      else Inr (s1\<lparr>bitmap := bitmap_clear idx (bitmap s1),
                                    free_pages_count := free_pages_count s1 + 1,
                                    mem := memzero page PGSIZE (mem s1)\<rparr>))"

text \<open>\<open>refcount[idx]++\<close> on an \<open>int\<close> at \<open>INT_MAX\<close> is undefined in C.\<close>

definition page_incref :: "64 word \<Rightarrow> kmem \<Rightarrow> error + kmem" where
  "page_incref page s =
     (if invalid_page_address page then Inl (Panic ''page_incref: invalid page address'')
      else let idx = page_index page
           in if \<not> bitmap_test idx (bitmap s)
              then Inl (Panic ''page_incref: page not allocated'')
              else if refcount s idx = INT_MAX
              then Inl (Undefined ''page_incref: signed overflow'')
              else Inr (s\<lparr>refcount := (refcount s)(idx := refcount s idx + 1)\<rparr>))"

definition page_decref :: "64 word \<Rightarrow> kmem \<Rightarrow> error + (int \<times> kmem)" where
  "page_decref page s =
     (case free_page page s of
        Inl err \<Rightarrow> Inl err
      | Inr s1 \<Rightarrow> Inr (refcount s1 (page_index page), s1))"


fun mark_pages :: "nat \<Rightarrow> nat list \<Rightarrow> kmem \<Rightarrow> error + kmem" where
  "mark_pages start_idx [] s = Inr s"
| "mark_pages start_idx (i # rest) s =
     (let idx = start_idx + i
      in if bitmap_test idx (bitmap s)
         then Inl (Panic ''alloc_pages: page already allocated'')
         else mark_pages start_idx rest
                (s\<lparr>bitmap := bitmap_set idx (bitmap s),
                   refcount := (refcount s)(idx := 1)\<rparr>))"

definition alloc_pages :: "int \<Rightarrow> kmem \<Rightarrow> error + (64 word \<times> kmem)" where
  "alloc_pages n s =
     (if n \<le> 0 then Inr (0, s)
      else if n = 1 then Inr (alloc_page s)
      else if free_pages_count s < n then Inr (0, s)
      else case find_contiguous_free_pages (bitmap s) n of
             None \<Rightarrow> Inr (0, s)
           | Some start_idx \<Rightarrow>
               (case mark_pages start_idx [0..<nat n] s of
                  Inl err \<Rightarrow> Inl err
                | Inr s1 \<Rightarrow>
                    (let start_page = index_to_page start_idx
                     in Inr (start_page,
                             s1\<lparr>free_pages_count := free_pages_count s1 - n,
                                mem := memzero start_page (of_int n * PGSIZE) (mem s1)\<rparr>))))"

fun free_pages_loop :: "64 word \<Rightarrow> nat list \<Rightarrow> kmem \<Rightarrow> error + kmem" where
  "free_pages_loop page [] s = Inr s"
| "free_pages_loop page (i # rest) s =
     (case free_page (page + of_nat i * PGSIZE) s of
        Inl err \<Rightarrow> Inl err
      | Inr s1 \<Rightarrow> free_pages_loop page rest s1)"

definition free_pages :: "64 word \<Rightarrow> int \<Rightarrow> kmem \<Rightarrow> error + kmem" where
  "free_pages page n s = (if n \<le> 0 then Inr s else free_pages_loop page [0..<nat n] s)"

text \<open>A caller's sequence of allocator calls; a call that panics ends the run.\<close>

datatype pmm_op =
    Alloc_page
  | Alloc_pages int
  | Free_page "64 word"
  | Free_pages "64 word" int
  | Page_incref "64 word"
  | Page_decref "64 word"

fun run_op :: "pmm_op \<Rightarrow> kmem \<Rightarrow> error + kmem" where
  "run_op Alloc_page s = Inr (snd (alloc_page s))"
| "run_op (Alloc_pages n) s =
     (case alloc_pages n s of Inl err \<Rightarrow> Inl err | Inr r \<Rightarrow> Inr (snd r))"
| "run_op (Free_page page) s = free_page page s"
| "run_op (Free_pages page n) s = free_pages page n s"
| "run_op (Page_incref page) s = page_incref page s"
| "run_op (Page_decref page) s =
     (case page_decref page s of Inl err \<Rightarrow> Inl err | Inr r \<Rightarrow> Inr (snd r))"

fun run_ops :: "pmm_op list \<Rightarrow> kmem \<Rightarrow> error + kmem" where
  "run_ops [] s = Inr s"
| "run_ops (op # ops) s =
     (case run_op op s of Inl err \<Rightarrow> Inl err | Inr s1 \<Rightarrow> run_ops ops s1)"

text \<open>The allocator's invariant: a set bit carries a positive count, a clear bit the count 0.\<close>

definition pmm_inv :: "kmem \<Rightarrow> bool" where
  "pmm_inv s \<longleftrightarrow>
     (\<forall>f. (bitmap_test f (bitmap s) \<longrightarrow> 1 \<le> refcount s f) \<and>
          (\<not> bitmap_test f (bitmap s) \<longrightarrow> refcount s f = 0))"

text \<open>
  An example boot: the kernel image is 48 pages (192 KiB), enough for the two arrays.  The
  calls: a second reference to the first frame after the image, dropped again, the frame
  freed, and a new allocation.
\<close>

definition example_end :: "64 word" where "example_end = 0x80030000"

definition example_pmm :: kmem where
  "example_pmm = projr (pmm_init (boot example_end (\<lambda>_. 0)))"

definition example_ops :: "pmm_op list" where
  "example_ops =
     [Alloc_page, Page_incref 0x80031000, Free_page 0x80031000, Free_page 0x80031000, Alloc_page]"

section \<open>Page tables (riscv.h, vm.c)\<close>

definition PTE_V :: "64 word" where "PTE_V = 1"
definition PTE_R :: "64 word" where "PTE_R = 2"
definition PTE_W :: "64 word" where "PTE_W = 4"
definition PTE_U :: "64 word" where "PTE_U = 16"
definition PTE_COW :: "64 word" where "PTE_COW = 256"

definition PA2PTE :: "64 word \<Rightarrow> 64 word" where
  "PA2PTE pa = push_bit 10 (drop_bit 12 pa)"

definition PTE2PA :: "64 word \<Rightarrow> 64 word" where
  "PTE2PA pte = push_bit 12 (drop_bit 10 pte)"

definition PTE_FLAGS :: "64 word \<Rightarrow> 64 word" where
  "PTE_FLAGS pte = pte AND 0x3FF"

definition PX :: "nat \<Rightarrow> 64 word \<Rightarrow> nat" where
  "PX level va = unat (drop_bit (12 + 9 * level) va AND 0x1FF)"

definition MAXVA :: "64 word" where "MAXVA = push_bit (9 + 9 + 9 + 12 - 1) 1"

text \<open>
  A page table is a page of 512 entries; an entry of level 2 or 1 with \<open>PTE_V\<close> leads to
  the table of the next level.  The three levels are a tree (every table page is referred to
  by one entry), so the model keeps, beside each entry, the table that the entry's physical
  address leads to: \<open>sub2 pt i\<close> is the page at \<open>PTE2PA (pte2 pt i)\<close>.  A pointer to a leaf
  entry is the triple of indices that \<open>walk\<close> went through.  The contents of data frames are
  in \<open>mem\<close>.
\<close>

record l0table =
  pte0 :: "nat \<Rightarrow> 64 word"

record l1table =
  pte1 :: "nat \<Rightarrow> 64 word"
  sub1 :: "nat \<Rightarrow> l0table"

record pagetable =
  pte2 :: "nat \<Rightarrow> 64 word"
  sub2 :: "nat \<Rightarrow> l1table"

type_synonym pte_ptr = "nat \<times> nat \<times> nat"

definition zero_l0 :: l0table where "zero_l0 = \<lparr>pte0 = (\<lambda>_. 0)\<rparr>"
definition zero_l1 :: l1table where "zero_l1 = \<lparr>pte1 = (\<lambda>_. 0), sub1 = (\<lambda>_. zero_l0)\<rparr>"
definition zero_pagetable :: pagetable where
  "zero_pagetable = \<lparr>pte2 = (\<lambda>_. 0), sub2 = (\<lambda>_. zero_l1)\<rparr>"

definition deref :: "pagetable \<Rightarrow> pte_ptr \<Rightarrow> 64 word" where
  "deref pt p = (case p of (i2, i1, i0) \<Rightarrow> pte0 (sub1 (sub2 pt i2) i1) i0)"

definition assign :: "pagetable \<Rightarrow> pte_ptr \<Rightarrow> 64 word \<Rightarrow> pagetable" where
  "assign pt p v =
     (case p of (i2, i1, i0) \<Rightarrow>
        (let t1 = sub2 pt i2; t0 = sub1 t1 i1
         in pt\<lparr>sub2 := (sub2 pt)(i2 := t1\<lparr>sub1 := (sub1 t1)(i1 := t0\<lparr>pte0 := (pte0 t0)(i0 := v)\<rparr>)\<rparr>)\<rparr>))"

text \<open>\<open>walk_lookup\<close>: the loop over levels 2 and 1, then the address of the leaf entry.\<close>

definition walk_lookup :: "pagetable \<Rightarrow> 64 word \<Rightarrow> error + pte_ptr option" where
  "walk_lookup pt va =
     (if MAXVA \<le> va then Inl (Panic ''walk'')
      else if pte2 pt (PX 2 va) AND PTE_V = 0 then Inr None
      else if pte1 (sub2 pt (PX 2 va)) (PX 1 va) AND PTE_V = 0 then Inr None
      else Inr (Some (PX 2 va, PX 1 va, PX 0 va)))"






text \<open>\<open>memmove(dst, src, PGSIZE)\<close> between two frames.\<close>

definition copy_page :: "64 word \<Rightarrow> 64 word \<Rightarrow> (64 word \<Rightarrow> 8 word) \<Rightarrow> (64 word \<Rightarrow> 8 word)" where
  "copy_page dst src m = (\<lambda>a. if a - dst < PGSIZE then m (src + (a - dst)) else m a)"

text \<open>
  \<open>cow_clone_page\<close> and \<open>cow_resolve\<close>: the C result with the new page table and memory.
\<close>

definition cow_clone_page ::
  "pagetable \<Rightarrow> 64 word \<Rightarrow> kmem \<Rightarrow> error + (int \<times> pagetable \<times> kmem)" where
  "cow_clone_page pt va0 s =
     (case walk_lookup pt va0 of
        Inl err \<Rightarrow> Inl err
      | Inr None \<Rightarrow> Inr (- 1, pt, s)
      | Inr (Some p) \<Rightarrow>
          (let pte = deref pt p
           in if pte AND PTE_V = 0 \<or> pte AND PTE_U = 0 then Inr (- 1, pt, s)
              else if pte AND PTE_COW = 0 then Inr (- 1, pt, s)
              else
                let pa = PTE2PA pte
                in case alloc_page s of (new_page, s1) \<Rightarrow>
                    (if new_page = 0 then Inr (- 1, pt, s1)
                     else
                       let s2 = s1\<lparr>mem := copy_page new_page pa (mem s1)\<rparr>;
                           flags = (PTE_FLAGS pte OR PTE_W) AND NOT PTE_COW;
                           pt1 = assign pt p (PA2PTE new_page OR flags)
                       in (case page_decref pa s2 of
                             Inl err \<Rightarrow> Inl err
                           | Inr (r, s3) \<Rightarrow> Inr (0, pt1, s3)))))"

definition cow_resolve ::
  "pagetable \<Rightarrow> 64 word \<Rightarrow> kmem \<Rightarrow> error + (int \<times> pagetable \<times> kmem)" where
  "cow_resolve pt faultva s = cow_clone_page pt (PGROUNDDOWN faultva) s"







text \<open>
  \<open>copyin\<close> and \<open>copyout\<close>, one page at a time.  The kernel buffer is a list of bytes; its
  length is \<open>len\<close>.
\<close>

definition chunk_len :: "64 word \<Rightarrow> nat \<Rightarrow> nat" where
  "chunk_len va len = min (unat (PGSIZE - (va - PGROUNDDOWN va))) len"

definition read_bytes :: "(64 word \<Rightarrow> 8 word) \<Rightarrow> 64 word \<Rightarrow> nat \<Rightarrow> 8 word list" where
  "read_bytes m a n = map (\<lambda>k. m (a + of_nat k)) [0..<n]"

definition write_bytes :: "64 word \<Rightarrow> 8 word list \<Rightarrow> (64 word \<Rightarrow> 8 word) \<Rightarrow> (64 word \<Rightarrow> 8 word)" where
  "write_bytes a bs m = (\<lambda>x. if unat (x - a) < length bs then bs ! unat (x - a) else m x)"

function copyin :: "pagetable \<Rightarrow> 64 word \<Rightarrow> nat \<Rightarrow> kmem \<Rightarrow> error + (int \<times> 8 word list)" where
  "copyin pt srcva len s =
     (if len = 0 then Inr (0, [])
      else
        let va0 = PGROUNDDOWN srcva
        in case walk_lookup pt va0 of
             Inl err \<Rightarrow> Inl err
           | Inr None \<Rightarrow> Inr (- 1, [])
           | Inr (Some p) \<Rightarrow>
               if deref pt p AND PTE_V = 0 \<or> deref pt p AND PTE_U = 0 then Inr (- 1, [])
               else
                 let pa0 = PTE2PA (deref pt p); offset = srcva - va0;
                     n = chunk_len srcva len;
                     got = read_bytes (mem s) (pa0 + offset) n
                 in (case copyin pt (srcva + of_nat n) (len - n) s of
                       Inl err \<Rightarrow> Inl err
                     | Inr (r, bs) \<Rightarrow> Inr (r, got @ bs)))"
  by pat_completeness auto
termination
proof (relation "measure (\<lambda>(pt, srcva, len, s). len)")
  have pos: "0 < chunk_len va len" if "0 < len" for va :: "64 word" and len :: nat
  proof -
    have "va - (va AND NOT (PGSIZE - 1)) = va AND NOT (va AND NOT (PGSIZE - 1))"
      by (rule disjunctive_diff) (simp add: bit_simps)
    also have "\<dots> = va AND (PGSIZE - 1)"
      by (rule bit_eqI) (auto simp add: bit_simps)
    finally have "va - PGROUNDDOWN va = va AND (PGSIZE - 1)"
      by (simp add: PGROUNDDOWN_def)
    moreover have "va AND (PGSIZE - 1) \<le> PGSIZE - 1"
      by (rule word_and_le1)
    ultimately have "va - PGROUNDDOWN va \<le> 4095"
      by (simp add: PGSIZE_def)
    then have "unat (va - PGROUNDDOWN va) \<le> 4095"
      by (simp add: word_le_nat_alt)
    then have "unat (PGSIZE - (va - PGROUNDDOWN va)) = 4096 - unat (va - PGROUNDDOWN va)"
      by (simp add: unat_sub word_le_nat_alt PGSIZE_def)
    with \<open>unat (va - PGROUNDDOWN va) \<le> 4095\<close> that show ?thesis
      by (simp add: chunk_len_def)
  qed
  show "wf (measure (\<lambda>(pt, srcva, len, s). len))" by simp
  show "((pt, srcva + of_nat n, len - n, s), pt, srcva, len, s)
          \<in> measure (\<lambda>(pt, srcva, len, s). len)"
    if "len \<noteq> 0" "n = chunk_len srcva len"
    for pt :: pagetable and srcva :: "64 word" and len n :: nat and s :: kmem
    using that pos[of len srcva] by simp
qed

declare copyin.simps [simp del]

function copyout ::
  "pagetable \<Rightarrow> 64 word \<Rightarrow> 8 word list \<Rightarrow> kmem \<Rightarrow> error + (int \<times> pagetable \<times> kmem)" where
  "copyout pt dstva src s =
     (if src = [] then Inr (0, pt, s)
      else
        let va0 = PGROUNDDOWN dstva
        in case walk_lookup pt va0 of
             Inl err \<Rightarrow> Inl err
           | Inr None \<Rightarrow> Inr (- 1, pt, s)
           | Inr (Some p) \<Rightarrow>
               if deref pt p AND PTE_V = 0 \<or> deref pt p AND PTE_U = 0 then Inr (- 1, pt, s)
               else
                (case (if deref pt p AND PTE_COW \<noteq> 0 then cow_resolve pt va0 s
                       else Inr (0, pt, s)) of
                   Inl err \<Rightarrow> Inl err
                 | Inr (r, pt1, s1) \<Rightarrow>
                     if r < 0 then Inr (- 1, pt1, s1)
                     else
                       (case walk_lookup pt1 va0 of
                          Inl err \<Rightarrow> Inl err
                        | Inr None \<Rightarrow> Inr (- 1, pt1, s1)
                        | Inr (Some p1) \<Rightarrow>
                            if deref pt1 p1 AND PTE_V = 0 \<or> deref pt1 p1 AND PTE_U = 0
                            then Inr (- 1, pt1, s1)
                            else if deref pt1 p1 AND PTE_W = 0 then Inr (- 1, pt1, s1)
                            else
                              let pa0 = PTE2PA (deref pt1 p1); offset = dstva - va0;
                                  n = chunk_len dstva (length src)
                              in copyout pt1 (dstva + of_nat n) (drop n src)
                                   (s1\<lparr>mem := write_bytes (pa0 + offset) (take n src) (mem s1)\<rparr>))))"
  by pat_completeness auto
termination
proof (relation "measure (\<lambda>(pt, dstva, src, s). length src)")
  have pos: "0 < chunk_len va len" if "0 < len" for va :: "64 word" and len :: nat
  proof -
    have "va - (va AND NOT (PGSIZE - 1)) = va AND NOT (va AND NOT (PGSIZE - 1))"
      by (rule disjunctive_diff) (simp add: bit_simps)
    also have "\<dots> = va AND (PGSIZE - 1)"
      by (rule bit_eqI) (auto simp add: bit_simps)
    finally have "va - PGROUNDDOWN va = va AND (PGSIZE - 1)"
      by (simp add: PGROUNDDOWN_def)
    moreover have "va AND (PGSIZE - 1) \<le> PGSIZE - 1"
      by (rule word_and_le1)
    ultimately have "va - PGROUNDDOWN va \<le> 4095"
      by (simp add: PGSIZE_def)
    then have "unat (va - PGROUNDDOWN va) \<le> 4095"
      by (simp add: word_le_nat_alt)
    then have "unat (PGSIZE - (va - PGROUNDDOWN va)) = 4096 - unat (va - PGROUNDDOWN va)"
      by (simp add: unat_sub word_le_nat_alt PGSIZE_def)
    with \<open>unat (va - PGROUNDDOWN va) \<le> 4095\<close> that show ?thesis
      by (simp add: chunk_len_def)
  qed
  show "wf (measure (\<lambda>(pt, dstva, src, s). length src))" by simp
  show "((pt1, dstva + of_nat n, drop n src, s2), pt, dstva, src, s)
          \<in> measure (\<lambda>(pt, dstva, src, s). length src)"
    if "src \<noteq> []" "n = chunk_len dstva (length src)"
    for pt pt1 :: pagetable and dstva :: "64 word" and src :: "8 word list" and n :: nat
      and s s2 :: kmem
    using that pos[of "length src" dstva] by simp
qed

declare copyout.simps [simp del]

section \<open>The log header (log.h, log.c)\<close>

definition LOG_SIZE :: int where "LOG_SIZE = 30"

record log_state =
  lstart :: int
  lsize :: int
  outstanding :: int
  committing :: int
  hdr_n :: int
  hdr_block :: "nat \<Rightarrow> int"

text \<open>
  \<open>log_block_write\<close>: the three checks, the search for the block in the header, the entry.
  The result says whether the block is new in the header; the C code then pins its buffer.
\<close>

definition log_index :: "log_state \<Rightarrow> int \<Rightarrow> nat" where
  "log_index l blockno =
     (case find (\<lambda>i. hdr_block l i = blockno) [0..<nat (hdr_n l)] of
        Some i \<Rightarrow> i
      | None \<Rightarrow> nat (hdr_n l))"

definition log_block_write :: "int \<Rightarrow> log_state \<Rightarrow> error + (bool \<times> log_state)" where
  "log_block_write blockno l =
     (if lsize l \<le> hdr_n l then Inl (Panic ''log_block_write: log full'')
      else if LOG_SIZE \<le> hdr_n l then Inl (Panic ''log_block_write: header overflow'')
      else if outstanding l < 1 then Inl (Panic ''log_block_write outside transaction'')
      else
        let idx = log_index l blockno;
            l1 = l\<lparr>hdr_block := (hdr_block l)(idx := blockno)\<rparr>
        in if int idx = hdr_n l then Inr (True, l1\<lparr>hdr_n := hdr_n l + 1\<rparr>)
           else Inr (False, l1))"

section \<open>Inodes, directories and paths (fs.h, fs.c)\<close>

definition BLOCK_SIZE :: nat where "BLOCK_SIZE = 4096"
definition NDIRECT :: nat where "NDIRECT = 12"
definition NINDIRECT :: nat where "NINDIRECT = 1024"
definition NDOUBLE :: nat where "NDOUBLE = 1024 * 1024"
definition IPB :: nat where "IPB = 60"
definition BPB :: nat where "BPB = 32768"
definition INODE_START :: nat where "INODE_START = 32"
definition BMAP_START :: nat where "BMAP_START = 45"
definition DATA_START :: nat where "DATA_START = 46"
definition FS_TOTAL_BLOCKS :: nat where "FS_TOTAL_BLOCKS = 2000"
definition ROOTDEV :: nat where "ROOTDEV = 1"
definition ROOTINO :: nat where "ROOTINO = 1"
definition T_DIR :: int where "T_DIR = 1"
definition T_FILE :: int where "T_FILE = 2"
definition T_DEV :: int where "T_DEV = 3"
definition T_SYMLINK :: int where "T_SYMLINK = 4"
definition DIRSIZ :: nat where "DIRSIZ = 14"
definition NINODE :: nat where "NINODE = 50"
definition MAXPATH :: nat where "MAXPATH = 128"
definition MAX_SYMLINK_DEPTH :: int where "MAX_SYMLINK_DEPTH = 8"

definition IBLOCK :: "nat \<Rightarrow> nat" where "IBLOCK inum = inum div IPB + INODE_START"
definition BBLOCK :: "nat \<Rightarrow> nat" where "BBLOCK b = b div BPB + BMAP_START"

record dinode =
  d_type :: int
  d_major :: int
  d_minor :: int
  d_nlink :: int
  d_size :: "32 word"
  d_addrs :: "nat \<Rightarrow> nat"

record inode =
  i_dev :: nat
  i_inum :: nat
  i_ref :: int
  i_locked :: bool
  i_valid :: int
  i_type :: int
  i_major :: int
  i_minor :: int
  i_nlink :: int
  i_size :: "32 word"
  i_addrs :: "nat \<Rightarrow> nat"

text \<open>
  The kernel state of the file-system layer and of the system calls.  \<open>blocks b\<close> is the
  content of the buffer that \<open>bread(dev, b)\<close> returns (the buffer cache and the disk are
  modelled below, with the log); \<open>dinodes\<close> is the inode region read through
  \<open>IBLOCK\<close>; an inode pointer is an index of \<open>itable\<close>, a file pointer an index of
  \<open>ftable\<close>.  \<open>km\<close> and \<open>upt\<close> are the allocator with physical memory and the page table
  of the current process.
\<close>

datatype file_type = FD_NONE | FD_PIPE | FD_INODE | FD_DEVICE

record file_entry =
  f_type :: file_type
  f_ref :: int
  f_readable :: bool
  f_writable :: bool
  f_ip :: "nat option"
  f_off :: "32 word"
  f_major :: int

record trapframe =
  epc :: "64 word"
  a0 :: "64 word"
  a1 :: "64 word"
  a2 :: "64 word"
  a3 :: "64 word"
  a4 :: "64 word"
  a5 :: "64 word"
  a7 :: "64 word"

datatype procstate = UNUSED | USED | SLEEPING | RUNNABLE | RUNNING | ZOMBIE

text \<open>
  A device's \<open>read\<close> or \<open>write\<close> entry of \<open>devsw\<close>: called with \<open>user\<close>, the address
  and the length, it works on the page table of the current process and on memory.
\<close>

type_synonym dev_fn =
  "bool \<Rightarrow> 64 word \<Rightarrow> int \<Rightarrow> pagetable \<Rightarrow> kmem \<Rightarrow> error + (int \<times> pagetable \<times> kmem)"

record kernel =
  km :: kmem
  upt :: pagetable
  blocks :: "nat \<Rightarrow> nat \<Rightarrow> 8 word"
  dinodes :: "nat \<Rightarrow> dinode"
  itable :: "nat \<Rightarrow> inode"
  lg :: log_state
  ftable :: "nat \<Rightarrow> file_entry"
  ofile :: "nat \<Rightarrow> nat option"
  cwd :: "nat option"
  tf :: trapframe
  killed :: int
  pstate :: procstate
  pid :: int
  dev_read :: "nat \<Rightarrow> dev_fn option"
  dev_write :: "nat \<Rightarrow> dev_fn option"
  crash_stage :: int

definition log_write :: "nat \<Rightarrow> kernel \<Rightarrow> error + kernel" where
  "log_write blockno k =
     (case log_block_write (int blockno) (lg k) of
        Inl err \<Rightarrow> Inl err
      | Inr (pin, l1) \<Rightarrow> Inr (k\<lparr>lg := l1\<rparr>))"

definition iget :: "nat \<Rightarrow> nat \<Rightarrow> kernel \<Rightarrow> error + (nat \<times> kernel)" where
  "iget dev inum k =
     (case find (\<lambda>i. 0 < i_ref (itable k i) \<and> i_dev (itable k i) = dev \<and> i_inum (itable k i) = inum)
                [0..<NINODE] of
        Some i \<Rightarrow> Inr (i, k\<lparr>itable := (itable k)(i := (itable k i)\<lparr>i_ref := i_ref (itable k i) + 1\<rparr>)\<rparr>)
      | None \<Rightarrow>
          (case find (\<lambda>i. i_ref (itable k i) = 0) [0..<NINODE] of
             None \<Rightarrow> Inl (Panic ''iget: no inodes'')
           | Some i \<Rightarrow>
               Inr (i, k\<lparr>itable := (itable k)(i := (itable k i)
                           \<lparr>i_dev := dev, i_inum := inum, i_ref := 1, i_valid := 0\<rparr>)\<rparr>)))"

definition idup :: "nat \<Rightarrow> kernel \<Rightarrow> kernel" where
  "idup ip k = k\<lparr>itable := (itable k)(ip := (itable k ip)\<lparr>i_ref := i_ref (itable k ip) + 1\<rparr>)\<rparr>"

definition ilock :: "nat \<Rightarrow> kernel \<Rightarrow> error + kernel" where
  "ilock ip k =
     (let n = itable k ip
      in if i_ref n < 1 then Inl (Panic ''ilock'')
         else if i_locked n then Inl (Blocked ''acquiresleep'')
         else if i_valid n = 0
         then (let d = dinodes k (i_inum n);
                   n1 = n\<lparr>i_locked := True, i_type := d_type d, i_major := d_major d,
                          i_minor := d_minor d, i_nlink := d_nlink d, i_size := d_size d,
                          i_addrs := d_addrs d, i_valid := 1\<rparr>
               in if i_type n1 = 0 then Inl (Panic ''ilock: no type'')
                  else Inr (k\<lparr>itable := (itable k)(ip := n1)\<rparr>))
         else Inr (k\<lparr>itable := (itable k)(ip := n\<lparr>i_locked := True\<rparr>)\<rparr>))"

definition iunlock :: "nat \<Rightarrow> kernel \<Rightarrow> error + kernel" where
  "iunlock ip k =
     (let n = itable k ip
      in if \<not> i_locked n \<or> i_ref n < 1 then Inl (Panic ''iunlock'')
         else Inr (k\<lparr>itable := (itable k)(ip := n\<lparr>i_locked := False\<rparr>)\<rparr>))"

definition iupdate :: "nat \<Rightarrow> kernel \<Rightarrow> error + kernel" where
  "iupdate ip k =
     (let n = itable k ip;
          d = \<lparr>d_type = i_type n, d_major = i_major n, d_minor = i_minor n,
               d_nlink = i_nlink n, d_size = i_size n, d_addrs = i_addrs n\<rparr>
      in log_write (IBLOCK (i_inum n)) (k\<lparr>dinodes := (dinodes k)(i_inum n := d)\<rparr>))"

text \<open>The block bitmap: \<open>balloc\<close> and \<open>bfree\<close>.\<close>

definition NBLOCKS :: nat where "NBLOCKS = FS_TOTAL_BLOCKS - DATA_START"

definition block_in_use :: "kernel \<Rightarrow> nat \<Rightarrow> bool" where
  "block_in_use k bno =
     (blocks k (BBLOCK bno) ((bno mod BPB) div 8) AND push_bit ((bno mod BPB) mod 8) 1 \<noteq> 0)"

definition balloc :: "kernel \<Rightarrow> error + (nat \<times> kernel)" where
  "balloc k =
     (case find (\<lambda>b. \<not> block_in_use k (b + DATA_START)) [0..<NBLOCKS] of
        None \<Rightarrow> Inl (Panic ''balloc: out of blocks'')
      | Some b \<Rightarrow>
          (let bno = b + DATA_START; bi = bno mod BPB; bb = BBLOCK bno;
               k1 = k\<lparr>blocks := (blocks k)(bb := (blocks k bb)
                          (bi div 8 := blocks k bb (bi div 8) OR push_bit (bi mod 8) 1))\<rparr>
           in case log_write bb k1 of
                Inl err \<Rightarrow> Inl err
              | Inr k2 \<Rightarrow>
                  (case log_write bno (k2\<lparr>blocks := (blocks k2)(bno := (\<lambda>_. 0))\<rparr>) of
                     Inl err \<Rightarrow> Inl err
                   | Inr k3 \<Rightarrow> Inr (bno, k3))))"

definition bfree :: "nat \<Rightarrow> kernel \<Rightarrow> error + kernel" where
  "bfree b k =
     (let bi = b mod BPB; bb = BBLOCK b
      in log_write bb
           (k\<lparr>blocks := (blocks k)(bb := (blocks k bb)
                 (bi div 8 := blocks k bb (bi div 8) AND NOT (push_bit (bi mod 8) 1)))\<rparr>))"

text \<open>A block of block numbers: entry \<open>j\<close> is the little-endian \<open>uint32\<close> at byte \<open>4 * j\<close>.\<close>

definition get_u32 :: "(nat \<Rightarrow> 8 word) \<Rightarrow> nat \<Rightarrow> nat" where
  "get_u32 blk j =
     unat (blk (4 * j)) + 256 * unat (blk (4 * j + 1)) + 65536 * unat (blk (4 * j + 2))
       + 16777216 * unat (blk (4 * j + 3))"

definition set_u32 :: "(nat \<Rightarrow> 8 word) \<Rightarrow> nat \<Rightarrow> nat \<Rightarrow> (nat \<Rightarrow> 8 word)" where
  "set_u32 blk j v =
     blk(4 * j := of_nat v, 4 * j + 1 := of_nat (v div 256),
         4 * j + 2 := of_nat (v div 65536), 4 * j + 3 := of_nat (v div 16777216))"

definition set_addr :: "nat \<Rightarrow> nat \<Rightarrow> nat \<Rightarrow> kernel \<Rightarrow> kernel" where
  "set_addr ip j v k =
     k\<lparr>itable := (itable k)(ip := (itable k ip)\<lparr>i_addrs := (i_addrs (itable k ip))(j := v)\<rparr>)\<rparr>"

text \<open>\<open>bmap\<close>: the disk block of logical block \<open>bn\<close>, allocated on first touch.\<close>

definition bmap :: "nat \<Rightarrow> nat \<Rightarrow> kernel \<Rightarrow> error + (nat \<times> kernel)" where
  "bmap ip bn k =
     (if bn < NDIRECT
      then (if i_addrs (itable k ip) bn = 0
            then (case balloc k of
                    Inl err \<Rightarrow> Inl err
                  | Inr (b, k1) \<Rightarrow> Inr (b, set_addr ip bn b k1))
            else Inr (i_addrs (itable k ip) bn, k))
      else if bn - NDIRECT < NINDIRECT
      then (case (if i_addrs (itable k ip) NDIRECT = 0
                  then (case balloc k of
                          Inl err \<Rightarrow> Inl err
                        | Inr (b, k1) \<Rightarrow> Inr (set_addr ip NDIRECT b k1))
                  else Inr k) of
              Inl err \<Rightarrow> Inl err
            | Inr k1 \<Rightarrow>
                (let ib = i_addrs (itable k1 ip) NDIRECT; j = bn - NDIRECT
                 in if get_u32 (blocks k1 ib) j = 0
                    then (case balloc k1 of
                            Inl err \<Rightarrow> Inl err
                          | Inr (b, k2) \<Rightarrow>
                              (case log_write ib
                                      (k2\<lparr>blocks := (blocks k2)(ib := set_u32 (blocks k2 ib) j b)\<rparr>) of
                                 Inl err \<Rightarrow> Inl err
                               | Inr k3 \<Rightarrow> Inr (b, k3)))
                    else Inr (get_u32 (blocks k1 ib) j, k1)))
      else if NDOUBLE \<le> bn - NDIRECT - NINDIRECT then Inl (Panic ''bmap: out of range'')
      else (case (if i_addrs (itable k ip) (NDIRECT + 1) = 0
                  then (case balloc k of
                          Inl err \<Rightarrow> Inl err
                        | Inr (b, k1) \<Rightarrow> Inr (set_addr ip (NDIRECT + 1) b k1))
                  else Inr k) of
              Inl err \<Rightarrow> Inl err
            | Inr k1 \<Rightarrow>
                (let db = i_addrs (itable k1 ip) (NDIRECT + 1);
                     first = (bn - NDIRECT - NINDIRECT) div NINDIRECT;
                     second = (bn - NDIRECT - NINDIRECT) mod NINDIRECT
                 in case (if get_u32 (blocks k1 db) first = 0
                          then (case balloc k1 of
                                  Inl err \<Rightarrow> Inl err
                                | Inr (b, k2) \<Rightarrow>
                                    log_write db
                                      (k2\<lparr>blocks := (blocks k2)(db := set_u32 (blocks k2 db) first b)\<rparr>))
                          else Inr k1) of
                      Inl err \<Rightarrow> Inl err
                    | Inr k3 \<Rightarrow>
                        (let sb = get_u32 (blocks k3 db) first
                         in if get_u32 (blocks k3 sb) second = 0
                            then (case balloc k3 of
                                    Inl err \<Rightarrow> Inl err
                                  | Inr (b, k4) \<Rightarrow>
                                      (case log_write sb
                                              (k4\<lparr>blocks := (blocks k4)(sb := set_u32 (blocks k4 sb) second b)\<rparr>) of
                                         Inl err \<Rightarrow> Inl err
                                       | Inr k5 \<Rightarrow> Inr (b, k5)))
                            else Inr (get_u32 (blocks k3 sb) second, k3)))))"

text \<open>\<open>itrunc\<close>: the direct blocks, the indirect table, the two levels of the double table.\<close>

fun free_direct :: "nat \<Rightarrow> nat list \<Rightarrow> kernel \<Rightarrow> error + kernel" where
  "free_direct ip [] k = Inr k"
| "free_direct ip (i # rest) k =
     (if i_addrs (itable k ip) i \<noteq> 0
      then (case bfree (i_addrs (itable k ip) i) k of
              Inl err \<Rightarrow> Inl err
            | Inr k1 \<Rightarrow> free_direct ip rest (set_addr ip i 0 k1))
      else free_direct ip rest k)"

fun free_entries :: "nat \<Rightarrow> nat list \<Rightarrow> kernel \<Rightarrow> error + kernel" where
  "free_entries tb [] k = Inr k"
| "free_entries tb (j # rest) k =
     (if get_u32 (blocks k tb) j \<noteq> 0
      then (case bfree (get_u32 (blocks k tb) j) k of
              Inl err \<Rightarrow> Inl err
            | Inr k1 \<Rightarrow>
                free_entries tb rest (k1\<lparr>blocks := (blocks k1)(tb := set_u32 (blocks k1 tb) j 0)\<rparr>))
      else free_entries tb rest k)"

fun free_tables :: "nat \<Rightarrow> nat list \<Rightarrow> kernel \<Rightarrow> error + kernel" where
  "free_tables db [] k = Inr k"
| "free_tables db (i # rest) k =
     (if get_u32 (blocks k db) i \<noteq> 0
      then (case free_entries (get_u32 (blocks k db) i) [0..<NINDIRECT] k of
              Inl err \<Rightarrow> Inl err
            | Inr k1 \<Rightarrow>
                (case bfree (get_u32 (blocks k1 db) i) k1 of
                   Inl err \<Rightarrow> Inl err
                 | Inr k2 \<Rightarrow>
                     free_tables db rest
                       (k2\<lparr>blocks := (blocks k2)(db := set_u32 (blocks k2 db) i 0)\<rparr>)))
      else free_tables db rest k)"

definition itrunc :: "nat \<Rightarrow> kernel \<Rightarrow> error + kernel" where
  "itrunc ip k =
     (case free_direct ip [0..<NDIRECT] k of
        Inl err \<Rightarrow> Inl err
      | Inr k1 \<Rightarrow>
          (case (if i_addrs (itable k1 ip) NDIRECT \<noteq> 0
                 then (case free_entries (i_addrs (itable k1 ip) NDIRECT) [0..<NINDIRECT] k1 of
                         Inl err \<Rightarrow> Inl err
                       | Inr k2 \<Rightarrow>
                           (case bfree (i_addrs (itable k2 ip) NDIRECT) k2 of
                              Inl err \<Rightarrow> Inl err
                            | Inr k3 \<Rightarrow> Inr (set_addr ip NDIRECT 0 k3)))
                 else Inr k1) of
             Inl err \<Rightarrow> Inl err
           | Inr k4 \<Rightarrow>
               (case (if i_addrs (itable k4 ip) (NDIRECT + 1) \<noteq> 0
                      then (case free_tables (i_addrs (itable k4 ip) (NDIRECT + 1)) [0..<NINDIRECT] k4 of
                              Inl err \<Rightarrow> Inl err
                            | Inr k5 \<Rightarrow>
                                (case bfree (i_addrs (itable k5 ip) (NDIRECT + 1)) k5 of
                                   Inl err \<Rightarrow> Inl err
                                 | Inr k6 \<Rightarrow> Inr (set_addr ip (NDIRECT + 1) 0 k6)))
                      else Inr k4) of
                  Inl err \<Rightarrow> Inl err
                | Inr k7 \<Rightarrow>
                    iupdate ip
                      (k7\<lparr>itable := (itable k7)(ip := (itable k7 ip)\<lparr>i_size := 0\<rparr>)\<rparr>))))"

definition iput :: "nat \<Rightarrow> kernel \<Rightarrow> error + kernel" where
  "iput ip k =
     (case (if i_ref (itable k ip) = 1 \<and> i_valid (itable k ip) \<noteq> 0 \<and> i_nlink (itable k ip) = 0
            then (case ilock ip k of
                    Inl err \<Rightarrow> Inl err
                  | Inr k1 \<Rightarrow>
                      (case itrunc ip k1 of
                         Inl err \<Rightarrow> Inl err
                       | Inr k2 \<Rightarrow>
                           (case iupdate ip
                                   (k2\<lparr>itable := (itable k2)(ip := (itable k2 ip)\<lparr>i_type := 0\<rparr>)\<rparr>) of
                              Inl err \<Rightarrow> Inl err
                            | Inr k3 \<Rightarrow>
                                Inr (k3\<lparr>itable := (itable k3)(ip := (itable k3 ip)
                                           \<lparr>i_valid := 0, i_locked := False\<rparr>)\<rparr>))))
            else Inr k) of
        Inl err \<Rightarrow> Inl err
      | Inr k4 \<Rightarrow>
          Inr (k4\<lparr>itable := (itable k4)(ip := (itable k4 ip)\<lparr>i_ref := i_ref (itable k4 ip) - 1\<rparr>)\<rparr>))"

definition iunlockput :: "nat \<Rightarrow> kernel \<Rightarrow> error + kernel" where
  "iunlockput ip k = (case iunlock ip k of Inl err \<Rightarrow> Inl err | Inr k1 \<Rightarrow> iput ip k1)"

text \<open>
  \<open>readi\<close>.  The offsets are \<open>uint32\<close>; after the two checks \<open>off + n\<close> does not wrap, and the
  loop counts in natural numbers.  With \<open>user_dst = 0\<close> the destination is a kernel buffer:
  the bytes moved into it, in order, are the second component of the result.  The result of
  the C function is the \<open>uint32\<close> count converted to \<open>int\<close>.
\<close>

function readi_loop ::
  "nat \<Rightarrow> bool \<Rightarrow> 64 word \<Rightarrow> nat \<Rightarrow> nat \<Rightarrow> nat \<Rightarrow> 8 word list \<Rightarrow> kernel
     \<Rightarrow> error + (int \<times> 8 word list \<times> kernel)" where
  "readi_loop ip user_dst dst off n tot kdst k =
     (if tot < n
      then (case bmap ip ((off + tot) div BLOCK_SIZE) k of
              Inl err \<Rightarrow> Inl err
            | Inr (b, k1) \<Rightarrow>
                (let block_off = (off + tot) mod BLOCK_SIZE;
                     m = min (n - tot) (BLOCK_SIZE - block_off);
                     bytes = map (blocks k1 b) [block_off..<block_off + m]
                 in if user_dst
                    then (case copyout (upt k1) (dst + of_nat tot) bytes (km k1) of
                            Inl err \<Rightarrow> Inl err
                          | Inr (r, pt1, km1) \<Rightarrow>
                              if r < 0 then Inr (- 1, kdst, k1\<lparr>upt := pt1, km := km1\<rparr>)
                              else readi_loop ip user_dst dst off n (tot + m) kdst
                                     (k1\<lparr>upt := pt1, km := km1\<rparr>))
                    else readi_loop ip user_dst dst off n (tot + m) (kdst @ bytes) k1))
      else Inr (sint (word_of_nat n :: 32 word), kdst, k))"
  by pat_completeness auto
termination
proof (relation "measure (\<lambda>(ip, user_dst, dst, off, n, tot, kdst, k). n - tot)")
  show "wf (measure (\<lambda>(ip, user_dst, dst, off, n, tot, kdst, k). n - tot))" by simp
  have dec: "((ip, user_dst, dst, off, n, tot + m, kdst1, k1), ip, user_dst, dst, off, n, tot, kdst, k)
          \<in> measure (\<lambda>(ip, user_dst, dst, off, n, tot, kdst, k). n - tot)"
    if "tot < n" "block_off = (off + tot) mod BLOCK_SIZE" "m = min (n - tot) (BLOCK_SIZE - block_off)"
    for ip :: nat and user_dst :: bool and dst :: "64 word" and off n tot m block_off :: nat
      and kdst kdst1 :: "8 word list" and k k1 :: kernel
  proof -
    have "0 < m" using that by (simp add: BLOCK_SIZE_def)
    with that show ?thesis by simp
  qed
  show "((ip, user_dst, dst, off, n, tot + m, kdst, k1\<lparr>upt := pt1, km := km1\<rparr>),
           ip, user_dst, dst, off, n, tot, kdst, k)
          \<in> measure (\<lambda>(ip, user_dst, dst, off, n, tot, kdst, k). n - tot)"
    if "tot < n" "block_off = (off + tot) mod BLOCK_SIZE" "m = min (n - tot) (BLOCK_SIZE - block_off)"
    for ip :: nat and user_dst :: bool and dst :: "64 word" and off n tot m block_off :: nat
      and kdst :: "8 word list" and k k1 :: kernel and pt1 km1
    using that by (rule dec)
  show "((ip, user_dst, dst, off, n, tot + m, kdst @ bytes, k1),
           ip, user_dst, dst, off, n, tot, kdst, k)
          \<in> measure (\<lambda>(ip, user_dst, dst, off, n, tot, kdst, k). n - tot)"
    if "tot < n" "block_off = (off + tot) mod BLOCK_SIZE" "m = min (n - tot) (BLOCK_SIZE - block_off)"
    for ip :: nat and user_dst :: bool and dst :: "64 word" and off n tot m block_off :: nat
      and kdst bytes :: "8 word list" and k k1 :: kernel
    using that by (rule dec)
qed

declare readi_loop.simps [simp del]

definition readi ::
  "nat \<Rightarrow> bool \<Rightarrow> 64 word \<Rightarrow> 32 word \<Rightarrow> 32 word \<Rightarrow> kernel \<Rightarrow> error + (int \<times> 8 word list \<times> kernel)" where
  "readi ip user_dst dst off n k =
     (if i_size (itable k ip) < off \<or> off + n < off then Inr (- 1, [], k)
      else
        let n1 = (if i_size (itable k ip) < off + n then i_size (itable k ip) - off else n)
        in readi_loop ip user_dst dst (unat off) (unat n1) 0 [] k)"

text \<open>
  \<open>writei\<close>.  With \<open>user_src = 0\<close> the source is a kernel buffer, given by its bytes.
  \<open>MAX_FILE_SIZE\<close> is a 64-bit constant above \<open>2^32\<close>, so the third check compares the
  32-bit sum with it.
\<close>

definition MAX_FILE_SIZE :: nat where
  "MAX_FILE_SIZE = (NDIRECT + NINDIRECT + NDOUBLE) * BLOCK_SIZE"

definition patch_block :: "(nat \<Rightarrow> 8 word) \<Rightarrow> nat \<Rightarrow> 8 word list \<Rightarrow> (nat \<Rightarrow> 8 word)" where
  "patch_block blk block_off bytes =
     (\<lambda>x. if block_off \<le> x \<and> x < block_off + length bytes then bytes ! (x - block_off) else blk x)"

function writei_loop ::
  "nat \<Rightarrow> bool \<Rightarrow> 64 word \<Rightarrow> 8 word list \<Rightarrow> nat \<Rightarrow> nat \<Rightarrow> nat \<Rightarrow> kernel
     \<Rightarrow> error + (bool \<times> kernel)" where
  "writei_loop ip user_src src ksrc off n tot k =
     (if tot < n
      then (case bmap ip ((off + tot) div BLOCK_SIZE) k of
              Inl err \<Rightarrow> Inl err
            | Inr (b, k1) \<Rightarrow>
                (let block_off = (off + tot) mod BLOCK_SIZE;
                     m = min (n - tot) (BLOCK_SIZE - block_off)
                 in case (if user_src
                          then (case copyin (upt k1) (src + of_nat tot) m (km k1) of
                                  Inl err \<Rightarrow> Inl err
                                | Inr (r, bytes) \<Rightarrow> Inr (r, bytes))
                          else Inr (0, take m (drop tot ksrc))) of
                      Inl err \<Rightarrow> Inl err
                    | Inr (r, bytes) \<Rightarrow>
                        (let k2 = k1\<lparr>blocks := (blocks k1)(b := patch_block (blocks k1 b) block_off bytes)\<rparr>
                         in if r < 0 then Inr (False, k2)
                            else (case log_write b k2 of
                                    Inl err \<Rightarrow> Inl err
                                  | Inr k3 \<Rightarrow> writei_loop ip user_src src ksrc off n (tot + m) k3))))
      else Inr (True, k))"
  by pat_completeness auto
termination
proof (relation "measure (\<lambda>(ip, user_src, src, ksrc, off, n, tot, k). n - tot)")
  show "wf (measure (\<lambda>(ip, user_src, src, ksrc, off, n, tot, k). n - tot))" by simp
  show "((ip, user_src, src, ksrc, off, n, tot + m, k3), ip, user_src, src, ksrc, off, n, tot, k)
          \<in> measure (\<lambda>(ip, user_src, src, ksrc, off, n, tot, k). n - tot)"
    if "tot < n" "block_off = (off + tot) mod BLOCK_SIZE" "m = min (n - tot) (BLOCK_SIZE - block_off)"
    for ip :: nat and user_src :: bool and src :: "64 word" and ksrc :: "8 word list"
      and off n tot m block_off :: nat and k k3 :: kernel
  proof -
    have "0 < m" using that by (simp add: BLOCK_SIZE_def)
    with that show ?thesis by simp
  qed
qed

declare writei_loop.simps [simp del]

definition writei ::
  "nat \<Rightarrow> bool \<Rightarrow> 64 word \<Rightarrow> 8 word list \<Rightarrow> 32 word \<Rightarrow> 32 word \<Rightarrow> kernel \<Rightarrow> error + (int \<times> kernel)" where
  "writei ip user_src src ksrc off n k =
     (if i_size (itable k ip) < off \<or> off + n < off then Inr (- 1, k)
      else if MAX_FILE_SIZE < unat (off + n) then Inr (- 1, k)
      else case writei_loop ip user_src src ksrc (unat off) (unat n) 0 k of
             Inl err \<Rightarrow> Inl err
           | Inr (False, k1) \<Rightarrow> Inr (- 1, k1)
           | Inr (True, k1) \<Rightarrow>
               (case iupdate ip
                       (if i_size (itable k1 ip) < off + n
                        then k1\<lparr>itable := (itable k1)(ip := (itable k1 ip)\<lparr>i_size := off + n\<rparr>)\<rparr>
                        else k1) of
                  Inl err \<Rightarrow> Inl err
                | Inr k2 \<Rightarrow> Inr (sint n, k2)))"

text \<open>
  Directory entries: 16 bytes, a little-endian \<open>uint16\<close> inode number and 14 bytes of name.
  A name buffer is a list of bytes; the byte after its end is the terminating \<open>0\<close>.
\<close>

definition byte_at :: "8 word list \<Rightarrow> nat \<Rightarrow> 8 word" where
  "byte_at xs i = (if i < length xs then xs ! i else 0)"

definition de_inum :: "8 word list \<Rightarrow> nat" where
  "de_inum de = unat (byte_at de 0) + 256 * unat (byte_at de 1)"

definition de_name :: "8 word list \<Rightarrow> 8 word list" where
  "de_name de = take DIRSIZ (drop 2 de)"

fun namecmp_from :: "8 word list \<Rightarrow> 8 word list \<Rightarrow> nat list \<Rightarrow> int" where
  "namecmp_from s t [] = 0"
| "namecmp_from s t (i # rest) =
     (if byte_at s i \<noteq> byte_at t i then int (unat (byte_at s i)) - int (unat (byte_at t i))
      else if byte_at s i = 0 then 0
      else namecmp_from s t rest)"

definition namecmp :: "8 word list \<Rightarrow> 8 word list \<Rightarrow> int" where
  "namecmp s t = namecmp_from s t [0..<DIRSIZ]"

definition dir_offsets :: "32 word \<Rightarrow> 32 word list" where
  "dir_offsets sz = map (\<lambda>j. of_nat (16 * j)) [0..<(unat sz + 15) div 16]"

text \<open>
  \<open>dirlookup\<close>: the scan over the entries; the result is the inode (from \<open>iget\<close>) and the
  entry's offset.  The offsets run in steps of 16 below the directory's size; an entry that
  \<open>readi\<close> returns short panics, so the 32-bit offset never wraps.
\<close>

fun dirlookup_loop ::
  "nat \<Rightarrow> 8 word list \<Rightarrow> 32 word list \<Rightarrow> kernel \<Rightarrow> error + ((nat \<times> 32 word) option \<times> kernel)" where
  "dirlookup_loop dp name [] k = Inr (None, k)"
| "dirlookup_loop dp name (off # rest) k =
     (case readi dp False 0 off 16 k of
        Inl err \<Rightarrow> Inl err
      | Inr (r, de, k1) \<Rightarrow>
          if r \<noteq> 16 then Inl (Panic ''dirlookup read'')
          else if de_inum de = 0 then dirlookup_loop dp name rest k1
          else if namecmp name (de_name de) = 0
          then (case iget (i_dev (itable k1 dp)) (de_inum de) k1 of
                  Inl err \<Rightarrow> Inl err
                | Inr (ip, k2) \<Rightarrow> Inr (Some (ip, off), k2))
          else dirlookup_loop dp name rest k1)"

definition dirlookup ::
  "nat \<Rightarrow> 8 word list \<Rightarrow> kernel \<Rightarrow> error + ((nat \<times> 32 word) option \<times> kernel)" where
  "dirlookup dp name k =
     (if i_type (itable k dp) \<noteq> T_DIR then Inl (Panic ''dirlookup not DIR'')
      else dirlookup_loop dp name (dir_offsets (i_size (itable k dp))) k)"

fun dirlink_slot :: "nat \<Rightarrow> 32 word list \<Rightarrow> kernel \<Rightarrow> error + (32 word option \<times> kernel)" where
  "dirlink_slot dp [] k = Inr (None, k)"
| "dirlink_slot dp (off # rest) k =
     (case readi dp False 0 off 16 k of
        Inl err \<Rightarrow> Inl err
      | Inr (r, de, k1) \<Rightarrow>
          if r \<noteq> 16 then Inl (Panic ''dirlink read'')
          else if de_inum de = 0 then Inr (Some off, k1)
          else dirlink_slot dp rest k1)"

definition make_dirent :: "8 word list \<Rightarrow> nat \<Rightarrow> 8 word list" where
  "make_dirent name inum =
     (let nm = takeWhile (\<lambda>c. c \<noteq> 0) (take (DIRSIZ - 1) name)
      in [of_nat inum, of_nat (inum div 256)] @ nm @ replicate (DIRSIZ - length nm) 0)"

definition dirlink :: "nat \<Rightarrow> 8 word list \<Rightarrow> nat \<Rightarrow> kernel \<Rightarrow> error + (int \<times> kernel)" where
  "dirlink dp name inum k =
     (case dirlookup dp name k of
        Inl err \<Rightarrow> Inl err
      | Inr (Some found, k1) \<Rightarrow> Inr (- 1, k1)
      | Inr (None, k1) \<Rightarrow>
          (case dirlink_slot dp (dir_offsets (i_size (itable k1 dp))) k1 of
             Inl err \<Rightarrow> Inl err
           | Inr (slot, k2) \<Rightarrow>
               (let off = (case slot of
                             Some free_off \<Rightarrow> free_off
                           | None \<Rightarrow> of_nat (16 * ((unat (i_size (itable k1 dp)) + 15) div 16)))
                in case writei dp False 0 (make_dirent name inum) off 16 k2 of
                     Inl err \<Rightarrow> Inl err
                   | Inr (r, k3) \<Rightarrow>
                       if r \<noteq> 16 then Inl (Panic ''dirlink write'') else Inr (0, k3))))"

text \<open>
  Paths are strings without the terminating \<open>0\<close>.  \<open>skipelem\<close> gives the next element as a
  name buffer of \<open>DIRSIZ\<close> bytes and the rest of the path, or nothing at the end.
\<close>

definition skipelem :: "string \<Rightarrow> (8 word list \<times> string) option" where
  "skipelem path =
     (let p1 = dropWhile (\<lambda>c. c = CHR ''/'') path
      in if p1 = [] then None
         else
           let s = takeWhile (\<lambda>c. c \<noteq> CHR ''/'') p1;
               p2 = dropWhile (\<lambda>c. c \<noteq> CHR ''/'') p1;
               kept = (if DIRSIZ \<le> length s then take (DIRSIZ - 1) s else s)
           in Some (map of_char kept @ replicate (DIRSIZ - length kept) 0,
                    dropWhile (\<lambda>c. c = CHR ''/'') p2))"

text \<open>
  Modelled from the spec: \<open>safestrcpy(dst, src, n)\<close> is declared in string.h and its body is
  not among the sources; it copies at most \<open>n - 1\<close> characters and terminates the result.
\<close>

definition safestrcpy :: "string \<Rightarrow> nat \<Rightarrow> string" where
  "safestrcpy src n = take (n - 1) src"

definition build_symlink_path :: "string \<Rightarrow> string \<Rightarrow> string option" where
  "build_symlink_path target rest =
     (let dst = safestrcpy target MAXPATH
      in if rest \<noteq> []
         then (if MAXPATH \<le> length dst + 1 then None
               else if MAXPATH - (length dst + 1) \<le> length rest then None
               else Some (dst @ ''/'' @ safestrcpy rest (MAXPATH - (length dst + 1))))
         else Some dst)"

text \<open>The link's content as a C string: the last byte read is overwritten with \<open>0\<close>.\<close>

definition link_target :: "8 word list \<Rightarrow> string" where
  "link_target bytes =
     map (\<lambda>c. char_of (unat c)) (takeWhile (\<lambda>c. c \<noteq> 0) (bytes[length bytes - 1 := 0]))"

text \<open>Release two inodes and return the null pointer: the common tail of the failure paths.\<close>

definition fail_unlockput_put :: "nat \<Rightarrow> nat \<Rightarrow> kernel \<Rightarrow> error + (nat option \<times> 8 word list \<times> kernel)" where
  "fail_unlockput_put ip parent k =
     (case iunlockput ip k of
        Inl err \<Rightarrow> Inl err
      | Inr k1 \<Rightarrow> (case iput parent k1 of Inl err \<Rightarrow> Inl err | Inr k2 \<Rightarrow> Inr (None, [], k2)))"

text \<open>
  \<open>namex_from\<close>.  One call of the model is one turn of the C loop; the loop's next turn and
  the two recursive calls for a symbolic link are calls of the model.  The result is the
  inode (or the null pointer), the name written to \<open>name\<close>, and the state.
\<close>

function namex_from ::
  "nat \<Rightarrow> string \<Rightarrow> bool \<Rightarrow> int \<Rightarrow> kernel \<Rightarrow> error + (nat option \<times> 8 word list \<times> kernel)" where
  "namex_from ip path nameiparent depth k =
     (case skipelem path of
        None \<Rightarrow>
          if nameiparent
          then (case iput ip k of Inl err \<Rightarrow> Inl err | Inr k1 \<Rightarrow> Inr (None, [], k1))
          else Inr (Some ip, [], k)
      | Some (elem, rest) \<Rightarrow>
          (case ilock ip k of
             Inl err \<Rightarrow> Inl err
           | Inr k1 \<Rightarrow>
               if i_type (itable k1 ip) \<noteq> T_DIR
               then (case iunlockput ip k1 of Inl err \<Rightarrow> Inl err | Inr k2 \<Rightarrow> Inr (None, [], k2))
               else if nameiparent \<and> rest = []
               then (case iunlock ip k1 of Inl err \<Rightarrow> Inl err | Inr k2 \<Rightarrow> Inr (Some ip, elem, k2))
               else
                 (case dirlookup ip elem k1 of
                    Inl err \<Rightarrow> Inl err
                  | Inr (None, k2) \<Rightarrow>
                      (case iunlockput ip k2 of Inl err \<Rightarrow> Inl err | Inr k3 \<Rightarrow> Inr (None, [], k3))
                  | Inr (Some (next, off), k2) \<Rightarrow>
                      (case iunlock ip k2 of
                         Inl err \<Rightarrow> Inl err
                       | Inr k3 \<Rightarrow>
                           if i_type (itable k3 next) = T_SYMLINK \<and> \<not> (nameiparent \<and> rest = [])
                           then
                             (if MAX_SYMLINK_DEPTH \<le> depth then fail_unlockput_put next ip k3
                              else
                                (case ilock next k3 of
                                   Inl err \<Rightarrow> Inl err
                                 | Inr k4 \<Rightarrow>
                                     (let stored = i_size (itable k4 next)
                                      in if stored = 0 \<or> of_nat MAXPATH < stored
                                         then fail_unlockput_put next ip k4
                                         else
                                           (case readi next False 0 0 stored k4 of
                                              Inl err \<Rightarrow> Inl err
                                            | Inr (r, bytes, k5) \<Rightarrow>
                                                if word_of_int r \<noteq> stored
                                                then fail_unlockput_put next ip k5
                                                else
                                                  (case iunlock next k5 of
                                                     Inl err \<Rightarrow> Inl err
                                                   | Inr k6 \<Rightarrow>
                                                       (case iput next k6 of
                                                          Inl err \<Rightarrow> Inl err
                                                        | Inr k7 \<Rightarrow>
                                                            if take 1 (link_target bytes) = ''/''
                                                            then
                                                              (case iget ROOTDEV ROOTINO k7 of
                                                                 Inl err \<Rightarrow> Inl err
                                                               | Inr (root, k8) \<Rightarrow>
                                                                   (case iput ip k8 of
                                                                      Inl err \<Rightarrow> Inl err
                                                                    | Inr k9 \<Rightarrow>
                                                                        (case build_symlink_path (link_target bytes) rest of
                                                                           None \<Rightarrow>
                                                                             (case iput root k9 of
                                                                                Inl err \<Rightarrow> Inl err
                                                                              | Inr k10 \<Rightarrow> Inr (None, [], k10))
                                                                         | Some combined \<Rightarrow>
                                                                             namex_from root combined nameiparent (depth + 1) k9)))
                                                            else
                                                              (case build_symlink_path (link_target bytes) rest of
                                                                 None \<Rightarrow>
                                                                   (case iput ip k7 of
                                                                      Inl err \<Rightarrow> Inl err
                                                                    | Inr k8 \<Rightarrow> Inr (None, [], k8))
                                                               | Some combined \<Rightarrow>
                                                                   namex_from ip combined nameiparent (depth + 1) k7)))))))
                           else
                             (case iput ip k3 of
                                Inl err \<Rightarrow> Inl err
                              | Inr k4 \<Rightarrow> namex_from next rest nameiparent depth k4)))))"
  by pat_completeness auto
termination
proof (relation "measures [\<lambda>(ip, path, nameiparent, depth, k). nat (MAX_SYMLINK_DEPTH - depth),
                           \<lambda>(ip, path, nameiparent, depth, k). length path]")
  show "wf (measures [\<lambda>(ip, path, nameiparent, depth, k). nat (MAX_SYMLINK_DEPTH - depth),
                      \<lambda>(ip, path, nameiparent, depth, k). length path])"
    by simp
  show "((root, combined, nameiparent, depth + 1, k9), ip, path, nameiparent, depth, k)
          \<in> measures [\<lambda>(ip, path, nameiparent, depth, k). nat (MAX_SYMLINK_DEPTH - depth),
                       \<lambda>(ip, path, nameiparent, depth, k). length path]"
    if "\<not> MAX_SYMLINK_DEPTH \<le> depth" "take 1 (link_target bytes) = ''/''"
    for root ip :: nat and combined path :: string and nameiparent :: bool and depth :: int
      and k k9 :: kernel and bytes
    using that(1) by simp
  show "((ip, combined, nameiparent, depth + 1, k7), ip, path, nameiparent, depth, k)
          \<in> measures [\<lambda>(ip, path, nameiparent, depth, k). nat (MAX_SYMLINK_DEPTH - depth),
                       \<lambda>(ip, path, nameiparent, depth, k). length path]"
    if "\<not> MAX_SYMLINK_DEPTH \<le> depth" "take 1 (link_target bytes) \<noteq> ''/''"
    for ip :: nat and combined path :: string and nameiparent :: bool and depth :: int
      and k k7 :: kernel and bytes
    using that(1) by simp
  show "((next, rest, nameiparent, depth, k4), ip, path, nameiparent, depth, k)
          \<in> measures [\<lambda>(ip, path, nameiparent, depth, k). nat (MAX_SYMLINK_DEPTH - depth),
                       \<lambda>(ip, path, nameiparent, depth, k). length path]"
    if "skipelem path = Some x2" "(elem, rest) = x2"
    for "next" ip :: nat and rest path :: string and nameiparent :: bool and depth :: int
      and k k4 :: kernel and x2 elem
  proof -
    define p1 where "p1 = dropWhile (\<lambda>c. c = CHR ''/'') path"
    define p2 where "p2 = dropWhile (\<lambda>c. c \<noteq> CHR ''/'') p1"
    from that have ne: "p1 \<noteq> []" and r: "rest = dropWhile (\<lambda>c. c = CHR ''/'') p2"
      by (auto simp add: skipelem_def Let_def p1_def p2_def split: if_splits)
    from ne have "hd p1 \<noteq> CHR ''/''"
      unfolding p1_def using hd_dropWhile[of "\<lambda>c. c = CHR ''/''" path] by simp
    with ne have "p2 = dropWhile (\<lambda>c. c \<noteq> CHR ''/'') (tl p1)"
      unfolding p2_def by (cases p1) auto
    then have "length p2 \<le> length (tl p1)"
      using length_dropWhile_le[of "\<lambda>c. c \<noteq> CHR ''/''" "tl p1"] by simp
    with ne have "length p2 < length p1" by (cases p1) auto
    moreover have "length p1 \<le> length path"
      unfolding p1_def by (rule length_dropWhile_le)
    moreover have "length rest \<le> length p2"
      unfolding r by (rule length_dropWhile_le)
    ultimately show ?thesis by simp
  qed
qed

declare namex_from.simps [simp del]

definition namex :: "string \<Rightarrow> bool \<Rightarrow> kernel \<Rightarrow> error + (nat option \<times> 8 word list \<times> kernel)" where
  "namex path nameiparent k =
     (if path = [] then Inr (None, [], k)
      else
        case (if hd path = CHR ''/'' \<or> cwd k = None then iget ROOTDEV ROOTINO k
              else Inr (the (cwd k), idup (the (cwd k)) k)) of
          Inl err \<Rightarrow> Inl err
        | Inr (start, k1) \<Rightarrow> namex_from start path nameiparent 0 k1)"

definition namei :: "string \<Rightarrow> kernel \<Rightarrow> error + (nat option \<times> kernel)" where
  "namei path k =
     (case namex path False k of
        Inl err \<Rightarrow> Inl err
      | Inr (r, name, k1) \<Rightarrow> Inr (r, k1))"

definition nameiparent :: "string \<Rightarrow> kernel \<Rightarrow> error + (nat option \<times> 8 word list \<times> kernel)" where
  "nameiparent path k = namex path True k"

section \<open>System calls on files (syscall.c, sysfile.c, file.c)\<close>

text \<open>
  \<open>check_user_range\<close>: the checks on the range, then the walk over its pages.
\<close>

function check_user_range_loop :: "pagetable \<Rightarrow> 64 word \<Rightarrow> 64 word \<Rightarrow> bool \<Rightarrow> error + int" where
  "check_user_range_loop pt start lim wr =
     (if start < lim
      then (case walk_lookup pt (PGROUNDDOWN start) of
              Inl err \<Rightarrow> Inl err
            | Inr None \<Rightarrow> Inr (- 1)
            | Inr (Some p) \<Rightarrow>
                if deref pt p AND PTE_V = 0 \<or> deref pt p AND PTE_U = 0 then Inr (- 1)
                else if wr \<and> deref pt p AND PTE_W = 0 then Inr (- 1)
                else
                  let nxt = PGROUNDDOWN start + PGSIZE
                  in if nxt \<le> start then Inr (- 1)
                     else check_user_range_loop pt (if lim < nxt then lim else nxt) lim wr)
      else Inr 0)"
  by pat_completeness auto
termination
proof (relation "measure (\<lambda>(pt, start, lim, wr). unat lim - unat start)")
  show "wf (measure (\<lambda>(pt, start, lim, wr). unat lim - unat start))" by simp
  show "((pt, if lim < nxt then lim else nxt, lim, wr), pt, start, lim, wr)
          \<in> measure (\<lambda>(pt, start, lim, wr). unat lim - unat start)"
    if "start < lim" "\<not> nxt \<le> start"
    for pt :: pagetable and start lim nxt :: "64 word" and wr :: bool
    using that by (auto simp add: word_less_nat_alt word_le_nat_alt)
qed

declare check_user_range_loop.simps [simp del]

definition check_user_range :: "pagetable \<Rightarrow> 64 word \<Rightarrow> int \<Rightarrow> bool \<Rightarrow> error + int" where
  "check_user_range pt addr sz wr =
     (if sz < 0 then Inr (- 1)
      else if sz = 0 then Inr 0
      else if MAXVA \<le> addr then Inr (- 1)
      else if addr + word_of_int sz < addr then Inr (- 1)
      else if MAXVA < addr + word_of_int sz then Inr (- 1)
      else check_user_range_loop pt addr (addr + word_of_int sz) wr)"

definition check_user_ptr :: "pagetable \<Rightarrow> 64 word \<Rightarrow> int \<Rightarrow> error + int" where
  "check_user_ptr pt ptr sz = check_user_range pt ptr sz False"

text \<open>The arguments of a system call, from the trap frame.\<close>

definition get_syscall_arg :: "int \<Rightarrow> kernel \<Rightarrow> 64 word option" where
  "get_syscall_arg n k =
     (if n = 0 then Some (a0 (tf k)) else if n = 1 then Some (a1 (tf k))
      else if n = 2 then Some (a2 (tf k)) else if n = 3 then Some (a3 (tf k))
      else if n = 4 then Some (a4 (tf k)) else if n = 5 then Some (a5 (tf k))
      else None)"


definition argaddr :: "int \<Rightarrow> kernel \<Rightarrow> error + 64 word option" where
  "argaddr n k =
     (case get_syscall_arg n k of
        None \<Rightarrow> Inr None
      | Some val \<Rightarrow>
          if val \<noteq> 0
          then (case check_user_ptr (upt k) val 1 of
                  Inl err \<Rightarrow> Inl err
                | Inr r \<Rightarrow> if r < 0 then Inr None else Inr (Some val))
          else Inr (Some val))"

fun fetchstr_loop ::
  "pagetable \<Rightarrow> kmem \<Rightarrow> 64 word \<Rightarrow> nat list \<Rightarrow> 8 word list \<Rightarrow> error + 8 word list option" where
  "fetchstr_loop pt s addr [] buf = Inr None"
| "fetchstr_loop pt s addr (i # rest) buf =
     (case copyin pt (addr + of_nat i) 1 s of
        Inl err \<Rightarrow> Inl err
      | Inr (r, bytes) \<Rightarrow>
          if r < 0 then Inr None
          else if hd bytes = 0 then Inr (Some buf)
          else fetchstr_loop pt s addr rest (buf @ [hd bytes]))"

definition fetchstr :: "64 word \<Rightarrow> int \<Rightarrow> kernel \<Rightarrow> error + 8 word list option" where
  "fetchstr addr mx k =
     (if mx \<le> 0 then Inr None else fetchstr_loop (upt k) (km k) addr [0..<nat mx] [])"

definition argstr :: "int \<Rightarrow> int \<Rightarrow> kernel \<Rightarrow> error + string option" where
  "argstr n mx k =
     (case argaddr n k of
        Inl err \<Rightarrow> Inl err
      | Inr None \<Rightarrow> Inr None
      | Inr (Some addr) \<Rightarrow>
          (case fetchstr addr mx k of
             Inl err \<Rightarrow> Inl err
           | Inr None \<Rightarrow> Inr None
           | Inr (Some bytes) \<Rightarrow> Inr (Some (map (\<lambda>c. char_of (unat c)) bytes))))"














section \<open>Unlink (sysfile.c)\<close>

definition is_special_dirname :: "8 word list \<Rightarrow> bool" where
  "is_special_dirname name =
     ((byte_at name 0 = 46 \<and> byte_at name 1 = 0) \<or>
      (byte_at name 0 = 46 \<and> byte_at name 1 = 46 \<and> byte_at name 2 = 0))"

fun isdirempty_loop :: "nat \<Rightarrow> 32 word list \<Rightarrow> kernel \<Rightarrow> error + (bool \<times> kernel)" where
  "isdirempty_loop dp [] k = Inr (True, k)"
| "isdirempty_loop dp (off # rest) k =
     (case readi dp False 0 off 16 k of
        Inl err \<Rightarrow> Inl err
      | Inr (r, de, k1) \<Rightarrow>
          if r \<noteq> 16 then Inl (Panic ''isdirempty: read'')
          else if de_inum de \<noteq> 0 then Inr (False, k1)
          else isdirempty_loop dp rest k1)"

definition isdirempty :: "nat \<Rightarrow> kernel \<Rightarrow> error + (bool \<times> kernel)" where
  "isdirempty dp k = isdirempty_loop dp (drop 2 (dir_offsets (i_size (itable k dp)))) k"

text \<open>\<open>nlink\<close> is a \<open>short\<close>: the decrement, converted back to 16 bits.\<close>

definition nlink_dec :: "int \<Rightarrow> int" where
  "nlink_dec n = sint (word_of_int (n - 1) :: 16 word)"

definition set_nlink :: "nat \<Rightarrow> int \<Rightarrow> kernel \<Rightarrow> kernel" where
  "set_nlink ip v k = k\<lparr>itable := (itable k)(ip := (itable k ip)\<lparr>i_nlink := v\<rparr>)\<rparr>"

definition unlink_entry :: "nat \<Rightarrow> nat \<Rightarrow> 32 word \<Rightarrow> kernel \<Rightarrow> error + (int \<times> kernel)" where
  "unlink_entry dp ip off k =
     (case writei dp False 0 (replicate 16 0) off 16 k of
        Inl err \<Rightarrow> Inl err
      | Inr (r, k1) \<Rightarrow>
          if r \<noteq> 16 then Inl (Panic ''sys_unlink: writei'')
          else
            (case (if i_type (itable k1 ip) = T_DIR
                   then iupdate dp (set_nlink dp (nlink_dec (i_nlink (itable k1 dp))) k1)
                   else Inr k1) of
               Inl err \<Rightarrow> Inl err
             | Inr k2 \<Rightarrow>
                 (case iunlockput dp k2 of
                    Inl err \<Rightarrow> Inl err
                  | Inr k3 \<Rightarrow>
                      (case iupdate ip (set_nlink ip (nlink_dec (i_nlink (itable k3 ip))) k3) of
                         Inl err \<Rightarrow> Inl err
                       | Inr k4 \<Rightarrow>
                           (case iunlockput ip k4 of
                              Inl err \<Rightarrow> Inl err
                            | Inr k5 \<Rightarrow> Inr (0, k5))))))"

definition unlink_path :: "string \<Rightarrow> kernel \<Rightarrow> error + (int \<times> kernel)" where
  "unlink_path path k =
     (case nameiparent path k of
        Inl err \<Rightarrow> Inl err
      | Inr (None, name, k1) \<Rightarrow> Inr (- 1, k1)
      | Inr (Some dp, name, k1) \<Rightarrow>
          (case ilock dp k1 of
             Inl err \<Rightarrow> Inl err
           | Inr k2 \<Rightarrow>
               if is_special_dirname name
               then (case iunlockput dp k2 of
                       Inl err \<Rightarrow> Inl err
                     | Inr k3 \<Rightarrow> Inr (- 1, k3))
               else
                 (case dirlookup dp name k2 of
                    Inl err \<Rightarrow> Inl err
                  | Inr (None, k3) \<Rightarrow>
                      (case iunlockput dp k3 of
                         Inl err \<Rightarrow> Inl err
                       | Inr k4 \<Rightarrow> Inr (- 1, k4))
                  | Inr (Some (ip, off), k3) \<Rightarrow>
                      (case ilock ip k3 of
                         Inl err \<Rightarrow> Inl err
                       | Inr k4 \<Rightarrow>
                           if i_nlink (itable k4 ip) < 1 then Inl (Panic ''sys_unlink: nlink < 1'')
                           else
                             (case (if i_type (itable k4 ip) = T_DIR then isdirempty ip k4
                                    else Inr (True, k4)) of
                                Inl err \<Rightarrow> Inl err
                              | Inr (False, k5) \<Rightarrow>
                                  (case iunlockput ip k5 of
                                     Inl err \<Rightarrow> Inl err
                                   | Inr k6 \<Rightarrow>
                                       (case iunlockput dp k6 of
                                          Inl err \<Rightarrow> Inl err
                                        | Inr k7 \<Rightarrow> Inr (- 1, k7)))
                              | Inr (True, k5) \<Rightarrow> unlink_entry dp ip off k5)))))"

definition sys_unlink :: "kernel \<Rightarrow> error + (int \<times> kernel)" where
  "sys_unlink k =
     (case argstr 0 (int MAXPATH) k of
        Inl err \<Rightarrow> Inl err
      | Inr None \<Rightarrow> Inr (- 1, k)
      | Inr (Some path) \<Rightarrow> unlink_path path k)"

section \<open>Traps from user mode (trap.c)\<close>






section \<open>The buffer cache (bio.c)\<close>

definition NBUF :: nat where "NBUF = 32"
definition BUF_HASH_SIZE :: nat where "BUF_HASH_SIZE = 37"
definition B_VALID :: "32 word" where "B_VALID = 2"
definition B_DIRTY :: "32 word" where "B_DIRTY = 4"

text \<open>
  A buffer is an index of \<open>bcache.buf\<close>.  The two linked structures are kept as the lists
  they thread: \<open>lru\<close> is the list from \<open>head.next\<close> to \<open>head.prev\<close>, \<open>hash i\<close> the chain of
  bucket \<open>i\<close> from its head.  \<open>b_locked\<close> is the sleep lock, held by the running process.
  \<open>disk\<close> is the block device behind \<open>virtio_disk_rw\<close>.
\<close>

record buf =
  b_flags :: "32 word"
  b_dev :: nat
  b_blockno :: nat
  b_locked :: bool
  b_refcnt :: "32 word"
  b_data :: "nat \<Rightarrow> 8 word"

record bcache =
  bufs :: "nat \<Rightarrow> buf"
  lru :: "nat list"
  hash :: "nat \<Rightarrow> nat list"
  disk :: "nat \<Rightarrow> nat \<Rightarrow> 8 word"

definition buf_hash :: "nat \<Rightarrow> nat \<Rightarrow> nat" where
  "buf_hash dev blockno =
     unat ((word_of_nat dev :: 32 word) XOR (word_of_nat blockno :: 32 word)) mod BUF_HASH_SIZE"

definition hash_insert :: "nat \<Rightarrow> bcache \<Rightarrow> bcache" where
  "hash_insert b c =
     (let idx = buf_hash (b_dev (bufs c b)) (b_blockno (bufs c b))
      in c\<lparr>hash := (hash c)(idx := b # hash c idx)\<rparr>)"

definition hash_remove :: "nat \<Rightarrow> bcache \<Rightarrow> bcache" where
  "hash_remove b c =
     (let idx = buf_hash (b_dev (bufs c b)) (b_blockno (bufs c b))
      in c\<lparr>hash := (hash c)(idx := remove1 b (hash c idx))\<rparr>)"

definition bcache_init :: "(nat \<Rightarrow> buf) \<Rightarrow> (nat \<Rightarrow> nat \<Rightarrow> 8 word) \<Rightarrow> bcache" where
  "bcache_init garbage d =
     \<lparr>bufs = (\<lambda>i. (garbage i)\<lparr>b_flags := 0, b_dev := 0, b_blockno := 0, b_locked := False, b_refcnt := 0\<rparr>),
      lru = rev [0..<NBUF],
      hash = (\<lambda>_. []),
      disk = d\<rparr>"

definition upd_buf :: "nat \<Rightarrow> (buf \<Rightarrow> buf) \<Rightarrow> bcache \<Rightarrow> bcache" where
  "upd_buf b f c = c\<lparr>bufs := (bufs c)(b := f (bufs c b))\<rparr>"

definition acquire_buf :: "nat \<Rightarrow> bcache \<Rightarrow> error + (nat \<times> bcache)" where
  "acquire_buf b c =
     (if b_locked (bufs c b) then Inl (Blocked ''acquiresleep'')
      else Inr (b, upd_buf b (\<lambda>x. x\<lparr>b_locked := True\<rparr>) c))"

definition bget :: "nat \<Rightarrow> nat \<Rightarrow> bcache \<Rightarrow> error + (nat \<times> bcache)" where
  "bget dev blockno c =
     (case find (\<lambda>b. b_dev (bufs c b) = dev \<and> b_blockno (bufs c b) = blockno)
                (hash c (buf_hash dev blockno)) of
        Some b \<Rightarrow> acquire_buf b (upd_buf b (\<lambda>x. x\<lparr>b_refcnt := b_refcnt x + 1\<rparr>) c)
      | None \<Rightarrow>
          (case find (\<lambda>b. b_refcnt (bufs c b) = 0) (rev (lru c)) of
             None \<Rightarrow> Inl (Panic ''bget: no buffers'')
           | Some b \<Rightarrow>
               acquire_buf b
                 (hash_insert b
                    (upd_buf b (\<lambda>x. x\<lparr>b_dev := dev, b_blockno := blockno, b_flags := 0, b_refcnt := 1\<rparr>)
                       (hash_remove b c)))))"

definition disk_rw :: "nat \<Rightarrow> bool \<Rightarrow> bcache \<Rightarrow> bcache" where
  "disk_rw b wr c =
     (if wr
      then upd_buf b (\<lambda>x. x\<lparr>b_flags := b_flags x AND NOT B_DIRTY\<rparr>)
             (c\<lparr>disk := (disk c)(b_blockno (bufs c b) := b_data (bufs c b))\<rparr>)
      else upd_buf b (\<lambda>x. x\<lparr>b_data := disk c (b_blockno x)\<rparr>) c)"

definition bread :: "nat \<Rightarrow> nat \<Rightarrow> bcache \<Rightarrow> error + (nat \<times> bcache)" where
  "bread dev blockno c =
     (case bget dev blockno c of
        Inl err \<Rightarrow> Inl err
      | Inr (b, c1) \<Rightarrow>
          if b_flags (bufs c1 b) AND B_VALID = 0
          then Inr (b, upd_buf b (\<lambda>x. x\<lparr>b_flags := b_flags x OR B_VALID\<rparr>) (disk_rw b False c1))
          else Inr (b, c1))"

definition bwrite :: "nat \<Rightarrow> bcache \<Rightarrow> error + bcache" where
  "bwrite b c =
     (if \<not> b_locked (bufs c b) then Inl (Panic ''bwrite: not holding lock'')
      else Inr (disk_rw b True (upd_buf b (\<lambda>x. x\<lparr>b_flags := b_flags x OR B_DIRTY\<rparr>) c)))"

definition brelse :: "nat \<Rightarrow> bcache \<Rightarrow> error + bcache" where
  "brelse b c =
     (if \<not> b_locked (bufs c b) then Inl (Panic ''brelse: not holding lock'')
      else
        let c1 = upd_buf b (\<lambda>x. x\<lparr>b_locked := False, b_refcnt := b_refcnt x - 1\<rparr>) c
        in if b_refcnt (bufs c1 b) = 0 then Inr (c1\<lparr>lru := b # remove1 b (lru c1)\<rparr>)
           else Inr c1)"

definition bpin :: "nat \<Rightarrow> bcache \<Rightarrow> bcache" where
  "bpin b c = upd_buf b (\<lambda>x. x\<lparr>b_refcnt := b_refcnt x + 1\<rparr>) c"

definition bunpin :: "nat \<Rightarrow> bcache \<Rightarrow> bcache" where
  "bunpin b c = upd_buf b (\<lambda>x. x\<lparr>b_refcnt := b_refcnt x - 1\<rparr>) c"

text \<open>\<open>clear_cache\<close>: the loop over the \<open>NBUF\<close> buffers.\<close>

definition clear_buf :: "buf \<Rightarrow> buf" where
  "clear_buf x = x\<lparr>b_flags := b_flags x AND NOT (B_VALID OR B_DIRTY), b_refcnt := 0\<rparr>"

fun clear_cache_loop :: "nat list \<Rightarrow> bcache \<Rightarrow> bcache" where
  "clear_cache_loop [] c = c"
| "clear_cache_loop (i # rest) c = clear_cache_loop rest (upd_buf i clear_buf c)"

definition clear_cache :: "bcache \<Rightarrow> bcache" where
  "clear_cache c = clear_cache_loop [0..<NBUF] c"









text \<open>
  A cache in use: buffer 3 holds block 46 of device 1, valid and dirty, pinned by the log
  and held under its sleep lock by a reader (reference count 2).
\<close>

definition example_bcache :: bcache where
  "example_bcache =
     hash_insert 3
       (upd_buf 3 (\<lambda>x. x\<lparr>b_flags := B_VALID OR B_DIRTY, b_dev := 1, b_blockno := 46,
                             b_locked := True, b_refcnt := 2\<rparr>)
          (bcache_init (\<lambda>_. \<lparr>b_flags = 0, b_dev = 0, b_blockno = 0, b_locked = False,
                                b_refcnt = 0, b_data = (\<lambda>_. 0)\<rparr>) (\<lambda>_ _. 0)))"

text \<open>
  An example system.  User memory: page \<open>0x1000\<close> is a read-only copy-on-write page shared
  with a child (frame 3, reference count 2) that starts with the string \<open>/a\<close>; page
  \<open>0x2000\<close> is writable, page \<open>0x3000\<close> is read-only, page \<open>0x4000\<close> is a kernel page
  (no \<open>PTE_U\<close>), and nothing is mapped above.  The disk: the root directory (inode 1,
  block 46) with the entries \<open>.\<close>, \<open>..\<close>, \<open>a\<close> (inode 2, a file of 5 bytes in block 47) and
  \<open>l\<close> (inode 3, a symbolic link to \<open>l\<close>, block 48).  The file \<open>a\<close> is open as descriptor 0,
  its inode in slot 2 of the inode table; slot 1 last held the link.
\<close>

definition example_kmem :: kmem where
  "example_kmem =
     \<lparr>bitmap = (\<lambda>w. if w = 0 then 0xFF else 0),
      free_pages_count = int NPAGES - 8,
      refcount = (\<lambda>f. if f = 3 then 2 else if f < 8 then 1 else 0),
      mem = (\<lambda>a. byte_at [47, 97, 0] (unat (a - 0x80003000))),
      kernel_end = 0x80001000\<rparr>"

definition example_l0 :: l0table where
  "example_l0 =
     \<lparr>pte0 = (\<lambda>i. if i = 1 then PA2PTE 0x80003000 OR PTE_V OR PTE_R OR PTE_U OR PTE_COW
                    else if i = 2 then PA2PTE 0x80004000 OR PTE_V OR PTE_R OR PTE_W OR PTE_U
                    else if i = 3 then PA2PTE 0x80005000 OR PTE_V OR PTE_R OR PTE_U
                    else if i = 4 then PA2PTE 0x80006000 OR PTE_V OR PTE_R OR PTE_W
                    else 0)\<rparr>"

definition example_upt :: pagetable where
  "example_upt =
     \<lparr>pte2 = (\<lambda>i. if i = 0 then PA2PTE 0x80001000 OR PTE_V else 0),
      sub2 = (\<lambda>i. if i = 0
                    then \<lparr>pte1 = (\<lambda>j. if j = 0 then PA2PTE 0x80002000 OR PTE_V else 0),
                          sub1 = (\<lambda>j. if j = 0 then example_l0 else zero_l0)\<rparr>
                    else zero_l1)\<rparr>"

definition example_dir :: "8 word list" where
  "example_dir =
     make_dirent [46] 1 @ make_dirent [46, 46] 1 @ make_dirent [97] 2 @ make_dirent [108] 3"

definition example_blocks :: "nat \<Rightarrow> nat \<Rightarrow> 8 word" where
  "example_blocks b =
     (if b = 45 then byte_at [255, 255, 255, 255, 255, 255, 1]
      else if b = 46 then byte_at example_dir
      else if b = 47 then byte_at [104, 101, 108, 108, 111]
      else if b = 48 then byte_at [108, 0]
      else (\<lambda>_. 0))"

definition example_dinodes :: "nat \<Rightarrow> dinode" where
  "example_dinodes inum =
     (if inum = 1
      then \<lparr>d_type = T_DIR, d_major = 0, d_minor = 0, d_nlink = 1, d_size = 64,
            d_addrs = (\<lambda>j. if j = 0 then 46 else 0)\<rparr>
      else if inum = 2
      then \<lparr>d_type = T_FILE, d_major = 0, d_minor = 0, d_nlink = 1, d_size = 5,
            d_addrs = (\<lambda>j. if j = 0 then 47 else 0)\<rparr>
      else if inum = 3
      then \<lparr>d_type = T_SYMLINK, d_major = 0, d_minor = 0, d_nlink = 1, d_size = 2,
            d_addrs = (\<lambda>j. if j = 0 then 48 else 0)\<rparr>
      else \<lparr>d_type = 0, d_major = 0, d_minor = 0, d_nlink = 0, d_size = 0, d_addrs = (\<lambda>_. 0)\<rparr>)"

definition free_inode :: inode where
  "free_inode =
     \<lparr>i_dev = 0, i_inum = 0, i_ref = 0, i_locked = False, i_valid = 0, i_type = 0,
      i_major = 0, i_minor = 0, i_nlink = 0, i_size = 0, i_addrs = (\<lambda>_. 0)\<rparr>"

definition example_itable :: "nat \<Rightarrow> inode" where
  "example_itable i =
     (if i = 1 then free_inode\<lparr>i_dev := 1, i_inum := 3, i_type := T_SYMLINK\<rparr>
      else if i = 2
      then \<lparr>i_dev = 1, i_inum = 2, i_ref = 1, i_locked = False, i_valid = 1, i_type = T_FILE,
            i_major = 0, i_minor = 0, i_nlink = 1, i_size = 5,
            i_addrs = (\<lambda>j. if j = 0 then 47 else 0)\<rparr>
      else free_inode)"

definition example_file :: file_entry where
  "example_file =
     \<lparr>f_type = FD_INODE, f_ref = 1, f_readable = True, f_writable = True, f_ip = Some 2,
      f_off = 0, f_major = 0\<rparr>"

definition zero_tf :: trapframe where
  "zero_tf = \<lparr>epc = 0, a0 = 0, a1 = 0, a2 = 0, a3 = 0, a4 = 0, a5 = 0, a7 = 0\<rparr>"

definition example_kernel :: kernel where
  "example_kernel =
     \<lparr>km = example_kmem, upt = example_upt, blocks = example_blocks, dinodes = example_dinodes,
      itable = example_itable,
      lg = \<lparr>lstart = 2, lsize = 30, outstanding = 0, committing = 0, hdr_n = 0,
            hdr_block = (\<lambda>_. 0)\<rparr>,
      ftable = (\<lambda>_. example_file),
      ofile = (\<lambda>fd. if fd = 0 then Some 0 else None),
      cwd = None, tf = zero_tf, killed = 0, pstate = RUNNING, pid = 2,
      dev_read = (\<lambda>_. None), dev_write = (\<lambda>_. None), crash_stage = 0\<rparr>"


text \<open>The example system after \<open>namei\<close> has found the root directory and locked it (slot 0).\<close>

definition example_root :: kernel where
  "example_root =
     example_kernel\<lparr>itable := example_itable
       (0 := \<lparr>i_dev = 1, i_inum = 1, i_ref = 1, i_locked = True, i_valid = 1, i_type = T_DIR,
               i_major = 0, i_minor = 0, i_nlink = 1, i_size = 64,
               i_addrs = (\<lambda>j. if j = 0 then 46 else 0)\<rparr>)\<rparr>"

definition example_root_found :: kernel where
  "example_root_found =
     example_root\<lparr>itable := (itable example_root)(2 := (itable example_root 2)\<lparr>i_ref := 2\<rparr>)\<rparr>"

text \<open>
  The example system during the resolution of the path \<open>l\<close>: the root directory is in slot 0
  (referenced, unlocked), the link has been read once and released again (slot 1).
\<close>

definition example_cycle :: kernel where
  "example_cycle =
     example_kernel\<lparr>itable := example_itable
       (0 := \<lparr>i_dev = 1, i_inum = 1, i_ref = 1, i_locked = False, i_valid = 1, i_type = T_DIR,
               i_major = 0, i_minor = 0, i_nlink = 1, i_size = 64,
               i_addrs = (\<lambda>j. if j = 0 then 46 else 0)\<rparr>,
        1 := \<lparr>i_dev = 1, i_inum = 3, i_ref = 0, i_locked = False, i_valid = 1,
               i_type = T_SYMLINK, i_major = 0, i_minor = 0, i_nlink = 1, i_size = 2,
               i_addrs = (\<lambda>j. if j = 0 then 48 else 0)\<rparr>)\<rparr>"

text \<open>The system call \<open>unlink("/a")\<close>: the path is the string at user address \<open>0x1000\<close>.\<close>

definition example_unlink :: kernel where
  "example_unlink = example_kernel\<lparr>tf := zero_tf\<lparr>a0 := 0x1000, a7 := 10\<rparr>\<rparr>"







section \<open>The frame allocator's invariant\<close>

lemma bitmap_test_bit:
  "bitmap_test i bm = bit (bm (i div 64)) (i mod 64)"
  by (simp add: bitmap_test_def BITS_PER_WORD_def bit_iff_odd_drop_bit and_one_eq mod_2_eq_odd)

lemma index_split: "(i = j) = (i div 64 = j div 64 \<and> i mod 64 = (j::nat) mod 64)"
  by (metis div_mult_mod_eq)

lemma bitmap_test_set:
  "bitmap_test i (bitmap_set j bm) = (i = j \<or> bitmap_test i bm)"
  unfolding bitmap_test_bit
  by (auto simp add: bitmap_set_def BITS_PER_WORD_def bit_simps index_split[of i j])

lemma bitmap_test_clear:
  "bitmap_test i (bitmap_clear j bm) = (i \<noteq> j \<and> bitmap_test i bm)"
  unfolding bitmap_test_bit
  by (auto simp add: bitmap_clear_def BITS_PER_WORD_def bit_simps index_split[of i j])

lemma mark_range_inv:
  "pmm_inv s \<Longrightarrow> mark_range p e s = Inr s' \<Longrightarrow> pmm_inv s'"
proof (induction p e s rule: mark_range.induct)
  case (1 p e s)
  show ?case
  proof (cases "p < e")
    case False
    with "1.prems" show ?thesis by (simp add: mark_range.simps[of p e s])
  next
    case True
    let ?s1 = "s\<lparr>bitmap := bitmap_set (page_index p) (bitmap s),
                 refcount := (refcount s)(page_index p := 1)\<rparr>"
    from True "1.prems"(2) have ok: "\<not> (p < KERNBASE \<or> PHYSTOP \<le> p)"
      by (auto simp add: mark_range.simps[of p e s] split: if_splits)
    with True "1.prems"(2) have run: "mark_range (p + PGSIZE) e ?s1 = Inr s'"
      by (simp add: mark_range.simps[of p e s])
    have "pmm_inv ?s1"
      using "1.prems"(1) by (auto simp add: pmm_inv_def bitmap_test_set)
    with "1.IH"[OF True ok _ run] show ?thesis by simp
  qed
qed

lemma pmm_init_inv:
  assumes "pmm_init (boot e m) = Inr s"
  shows "pmm_inv s"
proof -
  have z: "pmm_inv ((boot e m)\<lparr>bitmap := (\<lambda>_. 0)\<rparr>)"
    by (simp add: pmm_inv_def boot_def bitmap_test_bit)
  from assms obtain s1 s2 where
    a: "mark_range (PGROUNDUP e) (PGROUNDUP (PGROUNDUP e + of_nat (BITMAP_WORDS * 8)))
          ((boot e m)\<lparr>bitmap := (\<lambda>_. 0)\<rparr>) = Inr s1"
    and b: "mark_range KERNBASE e s1 = Inr s2"
    and c: "s = s2\<lparr>free_pages_count := count_free (bitmap s2)\<rparr>"
    by (auto simp add: pmm_init_def Let_def boot_def split: sum.splits)
  from mark_range_inv[OF z a] have "pmm_inv s1" .
  from mark_range_inv[OF this b] have "pmm_inv s2" .
  then show ?thesis by (simp add: c pmm_inv_def)
qed



lemma pmm_inv_set:
  "pmm_inv s \<Longrightarrow>
   pmm_inv (s\<lparr>bitmap := bitmap_set idx (bitmap s), refcount := (refcount s)(idx := 1)\<rparr>)"
  by (simp add: pmm_inv_def bitmap_test_set)


lemma alloc_page_inv: "pmm_inv s \<Longrightarrow> pmm_inv (snd (alloc_page s))"
proof (cases "free_pages_count s \<le> 0")
  case True
  assume "pmm_inv s"
  with True show ?thesis by (simp add: alloc_page_def)
next
  case False
  assume inv: "pmm_inv s"
  show ?thesis
  proof (cases "find_first_free_page (bitmap s)")
    case None
    with False inv show ?thesis by (simp add: alloc_page_def)
  next
    case (Some idx)
    have "pmm_inv (s\<lparr>bitmap := bitmap_set idx (bitmap s), refcount := (refcount s)(idx := 1)\<rparr>)"
      using inv by (rule pmm_inv_set)
    then have "pmm_inv (s\<lparr>bitmap := bitmap_set idx (bitmap s),
                             free_pages_count := free_pages_count s - 1,
                             refcount := (refcount s)(idx := 1),
                             mem := memzero (index_to_page idx) PGSIZE (mem s)\<rparr>)"
      by (simp add: pmm_inv_def)
    with False Some show ?thesis by (simp add: alloc_page_def Let_def)
  qed
qed

lemma free_page_inv:
  assumes inv: "pmm_inv s" and run: "free_page page s = Inr s'"
  shows "pmm_inv s'"
proof -
  let ?idx = "page_index page"
  from run have t: "bitmap_test ?idx (bitmap s)" and pos: "0 < refcount s ?idx"
    by (auto simp add: free_page_def Let_def split: if_splits)
  show ?thesis
  proof (cases "refcount s ?idx - 1 > 0")
    case True
    with run t pos have "s' = s\<lparr>refcount := (refcount s)(?idx := refcount s ?idx - 1)\<rparr>"
      by (auto simp add: free_page_def Let_def split: if_splits)
    with inv True t show ?thesis by (auto simp add: pmm_inv_def)
  next
    case False
    with pos have one: "refcount s ?idx = 1" by simp
    with run t have "s' = s\<lparr>refcount := (refcount s)(?idx := 0),
                              bitmap := bitmap_clear ?idx (bitmap s),
                              free_pages_count := free_pages_count s + 1,
                              mem := memzero page PGSIZE (mem s)\<rparr>"
      by (auto simp add: free_page_def Let_def split: if_splits)
    with inv show ?thesis by (auto simp add: pmm_inv_def bitmap_test_clear)
  qed
qed

lemma page_incref_inv:
  assumes inv: "pmm_inv s" and run: "page_incref page s = Inr s'"
  shows "pmm_inv s'"
proof -
  let ?idx = "page_index page"
  from run have t: "bitmap_test ?idx (bitmap s)"
    and s': "s' = s\<lparr>refcount := (refcount s)(?idx := refcount s ?idx + 1)\<rparr>"
    by (auto simp add: page_incref_def Let_def split: if_splits)
  from inv t have "1 \<le> refcount s ?idx" by (simp add: pmm_inv_def)
  with inv t show ?thesis by (auto simp add: s' pmm_inv_def)
qed

lemma mark_pages_inv: "pmm_inv s \<Longrightarrow> mark_pages st xs s = Inr s' \<Longrightarrow> pmm_inv s'"
proof (induction xs arbitrary: s)
  case Nil then show ?case by simp
next
  case (Cons i xs)
  from Cons.prems(2) have
    run: "mark_pages st xs (s\<lparr>bitmap := bitmap_set (st + i) (bitmap s),
                   refcount := (refcount s)(st + i := 1)\<rparr>) = Inr s'"
    by (auto simp add: Let_def split: if_splits)
  from Cons.IH[OF pmm_inv_set[OF Cons.prems(1)] run] show ?case .
qed

lemma alloc_pages_inv:
  assumes inv: "pmm_inv s" and run: "alloc_pages n s = Inr r"
  shows "pmm_inv (snd r)"
proof -
  consider (unchanged) "r = (0, s)" | (one) "r = alloc_page s"
    | (many) start_idx s1 where "mark_pages start_idx [0..<nat n] s = Inr s1"
        "snd r = s1\<lparr>free_pages_count := free_pages_count s1 - n,
                       mem := memzero (index_to_page start_idx) (of_int n * PGSIZE) (mem s1)\<rparr>"
    using run by (auto simp add: alloc_pages_def Let_def split: if_splits option.splits sum.splits)
  then show ?thesis
  proof cases
    case unchanged with inv show ?thesis by simp
  next
    case one with inv show ?thesis by (simp add: alloc_page_inv)
  next
    case many
    from mark_pages_inv[OF inv many(1)] show ?thesis by (simp add: many(2) pmm_inv_def)
  qed
qed

lemma free_pages_loop_inv:
  "pmm_inv s \<Longrightarrow> free_pages_loop page xs s = Inr s' \<Longrightarrow> pmm_inv s'"
proof (induction xs arbitrary: s)
  case Nil then show ?case by simp
next
  case (Cons i xs)
  from Cons.prems(2) obtain s1 where a: "free_page (page + of_nat i * PGSIZE) s = Inr s1"
    and b: "free_pages_loop page xs s1 = Inr s'"
    by (auto split: sum.splits)
  from Cons.IH[OF free_page_inv[OF Cons.prems(1) a] b] show ?case .
qed

lemma run_op_inv:
  assumes inv: "pmm_inv s" and run: "run_op op s = Inr s'"
  shows "pmm_inv s'"
proof (cases op)
  case Alloc_page
  with run inv show ?thesis using alloc_page_inv[of s] by auto
next
  case (Alloc_pages n)
  with run obtain r where "alloc_pages n s = Inr r" "s' = snd r" by (auto split: sum.splits)
  with inv show ?thesis using alloc_pages_inv by blast
next
  case (Free_page page)
  with run inv show ?thesis using free_page_inv by auto
next
  case (Free_pages page n)
  with run inv show ?thesis using free_pages_loop_inv
    by (auto simp add: free_pages_def split: if_splits)
next
  case (Page_incref page)
  with run inv show ?thesis using page_incref_inv by auto
next
  case (Page_decref page)
  with run have "free_page page s = Inr s'"
    by (auto simp add: page_decref_def split: sum.splits)
  with inv show ?thesis using free_page_inv by blast
qed

lemma run_ops_inv: "pmm_inv s \<Longrightarrow> run_ops ops s = Inr s' \<Longrightarrow> pmm_inv s'"
proof (induction ops arbitrary: s)
  case Nil then show ?case by simp
next
  case (Cons op ops)
  from Cons.prems(2) obtain s1 where a: "run_op op s = Inr s1" and b: "run_ops ops s1 = Inr s'"
    by (auto split: sum.splits)
  from Cons.IH[OF run_op_inv[OF Cons.prems(1) a] b] show ?case .
qed

text \<open>
  Claim C5.  In every state of the frame allocator reached from \<open>pmm_init\<close> by calls of
  \<open>alloc_page\<close>, \<open>alloc_pages\<close>, \<open>free_page\<close>, \<open>free_pages\<close>, \<open>page_incref\<close>
  (and \<open>page_decref\<close>) none of which panics or is undefined, every frame index \<open>f\<close>
  below \<open>NPAGES\<close> has reference count 0 exactly when its bitmap bit is clear.  The calls
  that are undefined are an increment of a count at \<open>INT_MAX\<close> and a \<open>free_page\<close> that drops
  the last reference to a frame of the kernel image, where the allocator's own arrays are.
\<close>

theorem frame_free_iff_refcount_zero:
  assumes "pmm_init (boot e m) = Inr s0" and "run_ops ops s0 = Inr s" and "f < NPAGES"
  shows "(refcount s f = 0) = (\<not> bitmap_test f (bitmap s))"
proof -
  have "pmm_inv s" using assms(1,2) by (blast intro: pmm_init_inv run_ops_inv)
  then have "(bitmap_test f (bitmap s) \<longrightarrow> 1 \<le> refcount s f) \<and>
             (\<not> bitmap_test f (bitmap s) \<longrightarrow> refcount s f = 0)"
    unfolding pmm_inv_def by blast
  then show ?thesis by (cases "bitmap_test f (bitmap s)") auto
qed


lemma example_init:
  "pmm_init (boot example_end (\<lambda>_. 0)) = Inr example_pmm"
proof -
  have "\<not> isl (pmm_init (boot example_end (\<lambda>_. 0)))"
    by (simp add: pmm_init_def example_end_def PGROUNDUP_def PGSIZE_def BITMAP_WORDS_def
        mark_range.simps KERNBASE_def PHYSTOP_def Let_def boot_def)
  then show ?thesis by (simp add: example_pmm_def)
qed

lemma example_booted:
  "bitmap example_pmm 0 = mask 49" "kernel_end example_pmm = 0x80030000"
  "free_pages_count example_pmm = count_free (bitmap example_pmm)"
  by (simp_all add: example_pmm_def pmm_init_def example_end_def PGROUNDUP_def PGSIZE_def
      BITMAP_WORDS_def mark_range.simps KERNBASE_def PHYSTOP_def Let_def boot_def
      bitmap_set_def page_index_def BITS_PER_WORD_def mask_eq_exp_minus_1)

lemma example_low_frames: "f < 64 \<Longrightarrow> bitmap_test f (bitmap example_pmm) = (f < 49)"
  by (simp add: bitmap_test_bit example_booted bit_simps)

lemma count_free_pos: "f < NPAGES \<Longrightarrow> \<not> bitmap_test f bm \<Longrightarrow> 0 < count_free bm"
proof -
  assume "f < NPAGES" "\<not> bitmap_test f bm"
  then have "f \<in> set (filter (\<lambda>i. \<not> bitmap_test i bm) [0..<NPAGES])" by simp
  then have "filter (\<lambda>i. \<not> bitmap_test i bm) [0..<NPAGES] \<noteq> []" by (metis empty_iff empty_set)
  then show ?thesis by (simp add: count_free_def)
qed

lemma find_first: "P x \<Longrightarrow> \<forall>y\<in>set xs. \<not> P y \<Longrightarrow> find P (xs @ x # ys) = Some x"
  by (induction xs) simp_all

lemma find_upt_first:
  assumes "k < n" "P k" "\<forall>j<k. \<not> P j"
  shows "find P [0..<n] = Some k"
proof -
  have "[0..<k + (n - k)] = [0..<k] @ [k..<k + (n - k)]"
    by (rule upt_add_eq_append) simp
  with assms(1) have "[0..<n] = [0..<k] @ k # [Suc k..<n]"
    by (simp add: upt_conv_Cons)
  moreover have "find P ([0..<k] @ k # [Suc k..<n]) = Some k"
    using assms(2,3) by (intro find_first) simp_all
  ultimately show ?thesis by simp
qed

lemma example_first_free: "find_first_free_page (bitmap example_pmm) = Some 49"
proof -
  have "free_bit_in_word (bitmap example_pmm) 0 = Some 49"
    unfolding free_bit_in_word_def BITS_PER_WORD_def
    by (rule find_upt_first) (auto simp add: NPAGES_def example_low_frames)
  moreover have "bitmap example_pmm 0 \<noteq> NOT 0"
    by (simp add: example_booted bit_eq_iff [where ?'a = "64 word"] bit_simps) (rule exI [of _ 63], simp)
  moreover have "[0..<BITMAP_WORDS] = 0 # [1..<BITMAP_WORDS]"
    by (simp add: BITMAP_WORDS_def upt_conv_Cons)
  ultimately show ?thesis by (simp add: find_first_free_page_def BITS_PER_WORD_def)
qed

lemma example_alloc:
  "alloc_page example_pmm
     = (0x80031000, example_pmm\<lparr>bitmap := bitmap_set 49 (bitmap example_pmm),
                       free_pages_count := free_pages_count example_pmm - 1,
                       refcount := (refcount example_pmm)(49 := 1),
                       mem := memzero 0x80031000 PGSIZE (mem example_pmm)\<rparr>)"
proof -
  have "0 < free_pages_count example_pmm"
    unfolding example_booted(3)
    by (rule count_free_pos [of 49]) (simp_all add: NPAGES_def example_low_frames)
  then show ?thesis
    by (simp add: alloc_page_def example_first_free index_to_page_def KERNBASE_def PGSIZE_def)
qed

lemma example_run:
  "run_ops example_ops example_pmm = Inr (projr (run_ops example_ops example_pmm))"
proof -
  have "page_index 0x80031000 = 49" "\<not> invalid_page_address 0x80031000"
    by (simp_all add: page_index_def invalid_page_address_def KERNBASE_def PHYSTOP_def PGSIZE_def)
  then have "\<not> isl (run_ops example_ops example_pmm)"
    by (simp add: example_ops_def example_alloc page_incref_def free_page_def Let_def
        INT_MAX_def bitmap_test_set bitmap_test_clear example_booted)
  then show ?thesis by simp
qed

theorem frame_free_iff_refcount_zero_witness:
  "pmm_init (boot example_end (\<lambda>_. 0)) = Inr example_pmm \<and>
   run_ops example_ops example_pmm = Inr (projr (run_ops example_ops example_pmm)) \<and>
   (49::nat) < NPAGES \<and>
   (refcount (projr (run_ops example_ops example_pmm)) 49 = 0) =
   (\<not> bitmap_test 49 (bitmap (projr (run_ops example_ops example_pmm))))"
  using frame_free_iff_refcount_zero [OF example_init example_run, of 49]
    example_init example_run
  by (simp add: NPAGES_def)

section \<open>The effect of \<open>clear_cache\<close>\<close>

lemma clear_cache_loop_bufs:
  "bufs (clear_cache_loop xs c) i = (if i \<in> set xs then clear_buf (bufs c i) else bufs c i)"
proof (induction xs arbitrary: c)
  case Nil
  show ?case by simp
next
  case (Cons x xs)
  show ?case by (simp add: Cons.IH upd_buf_def clear_buf_def)
qed

lemma clear_cache_loop_frame:
  "lru (clear_cache_loop xs c) = lru c \<and> hash (clear_cache_loop xs c) = hash c
     \<and> disk (clear_cache_loop xs c) = disk c"
  by (induction xs arbitrary: c) (simp_all add: upd_buf_def)

text \<open>
  Claim C10.  \<open>clear_cache\<close> sets the reference count of each of the \<open>NBUF = 32\<close> buffers to 0
  and clears its \<open>B_VALID\<close> and \<open>B_DIRTY\<close> flags, whatever the count and the lock were (so
  also for a buffer pinned by the log or held under its sleep lock); of each buffer the
  other flag bits, \<open>dev\<close>, \<open>blockno\<close>, the sleep lock and the data stay as they were, and so do
  the hash chains, the LRU list and the disk.
\<close>

theorem clear_cache_effect:
  "(\<forall>i<NBUF.
      b_refcnt (bufs (clear_cache c) i) = 0
      \<and> b_flags (bufs (clear_cache c) i) AND B_VALID = 0
      \<and> b_flags (bufs (clear_cache c) i) AND B_DIRTY = 0
      \<and> b_flags (bufs (clear_cache c) i) AND NOT (B_VALID OR B_DIRTY)
            = b_flags (bufs c i) AND NOT (B_VALID OR B_DIRTY)
      \<and> b_dev (bufs (clear_cache c) i) = b_dev (bufs c i)
      \<and> b_blockno (bufs (clear_cache c) i) = b_blockno (bufs c i)
      \<and> b_locked (bufs (clear_cache c) i) = b_locked (bufs c i)
      \<and> b_data (bufs (clear_cache c) i) = b_data (bufs c i))
   \<and> hash (clear_cache c) = hash c
   \<and> lru (clear_cache c) = lru c
   \<and> disk (clear_cache c) = disk c"
proof -
  have flags: "(f AND NOT B_VALID AND NOT B_DIRTY) AND B_VALID = 0
               \<and> (f AND NOT B_VALID AND NOT B_DIRTY) AND B_DIRTY = 0" for f :: "32 word"
    by (simp add: B_VALID_def B_DIRTY_def and.assoc)
  show ?thesis
    unfolding clear_cache_def
    by (simp add: clear_cache_loop_bufs clear_cache_loop_frame clear_buf_def flags)
qed

theorem clear_cache_effect_witness:
  "(3::nat) < NBUF
   \<and> b_refcnt (bufs example_bcache 3) = 2 \<and> b_locked (bufs example_bcache 3)
   \<and> b_refcnt (bufs (clear_cache example_bcache) 3) = 0
   \<and> b_flags (bufs (clear_cache example_bcache) 3) AND B_VALID = 0
   \<and> b_flags (bufs (clear_cache example_bcache) 3) AND B_DIRTY = 0
   \<and> b_blockno (bufs (clear_cache example_bcache) 3) = 46
   \<and> b_locked (bufs (clear_cache example_bcache) 3)
   \<and> hash (clear_cache example_bcache) (buf_hash 1 46) = [3]"
proof -
  have a: "(3::nat) < NBUF" by (simp add: NBUF_def)
  have b: "bufs example_bcache 3 =
             \<lparr>b_flags = B_VALID OR B_DIRTY, b_dev = 1, b_blockno = 46, b_locked = True,
              b_refcnt = 2, b_data = (\<lambda>_. 0)\<rparr>"
    by (simp add: example_bcache_def hash_insert_def upd_buf_def bcache_init_def)
  have h: "hash example_bcache (buf_hash 1 46) = [3]"
    by (simp add: example_bcache_def hash_insert_def upd_buf_def bcache_init_def)
  from clear_cache_effect [of example_bcache] a b h show ?thesis by simp
qed

section \<open>\<open>readi\<close> into a kernel buffer\<close>

lemma readi_loop_kernel_count:
  "readi_loop ip user_dst dst off n tot kdst k = Inr (r, bytes, k') \<Longrightarrow> \<not> user_dst \<Longrightarrow>
     tot \<le> n \<Longrightarrow>
     length bytes = length kdst + (n - tot) \<and> r = sint (word_of_nat n :: 32 word)"
proof (induction ip user_dst dst off n tot kdst k rule: readi_loop.induct)
  case (1 ip user_dst dst off n tot kdst k)
  from "1.prems" have u: "user_dst = False" by simp
  show ?case
  proof (cases "tot < n")
    case False
    then have "readi_loop ip user_dst dst off n tot kdst k = Inr (sint (word_of_nat n :: 32 word), kdst, k)"
      by (subst readi_loop.simps) simp
    with "1.prems" False show ?thesis by simp
  next
    case True
    define m where "m = min (n - tot) (BLOCK_SIZE - (off + tot) mod BLOCK_SIZE)"
    have m: "0 < m" "tot + m \<le> n" using True by (simp_all add: m_def BLOCK_SIZE_def)
    from "1.prems"(1) True u obtain b k1 where
      bm: "bmap ip ((off + tot) div BLOCK_SIZE) k = Inr (b, k1)" and
      rec: "readi_loop ip False dst off n (tot + m)
              (kdst @ map (blocks k1 b) [(off + tot) mod BLOCK_SIZE..<(off + tot) mod BLOCK_SIZE + m]) k1
            = Inr (r, bytes, k')"
      by (simp add: readi_loop.simps [of ip False dst off n tot] Let_def m_def
          split: sum.splits prod.splits)
    from rec u have rec': "readi_loop ip user_dst dst off n (tot + m)
              (kdst @ map (blocks k1 b) [(off + tot) mod BLOCK_SIZE..<(off + tot) mod BLOCK_SIZE + m]) k1
            = Inr (r, bytes, k')"
      by simp
    from "1.IH"(2) [OF True bm refl refl refl refl "1.prems"(2) rec' [unfolded m_def] "1.prems"(2)] m
    show ?thesis by (simp add: m_def)
  qed
qed

text \<open>
  Claim C6.  \<open>readi(ip, 0, dst, off, n)\<close>: if \<open>off > ip->size\<close> or \<open>off + n\<close> overflows, it
  returns \<open>-1\<close> and moves no byte; otherwise, when it returns, it has moved exactly
  \<open>min(n, ip->size - off)\<close> bytes into the kernel buffer and returns that count (the
  \<open>uint32\<close> count converted to \<open>int\<close>, which is the count itself below \<open>2^31\<close>).
\<close>

theorem readi_kernel_buffer:
  "(i_size (itable k ip) < off \<or> off + n < off \<longrightarrow> readi ip False dst off n k = Inr (- 1, [], k))
   \<and> (off \<le> i_size (itable k ip) \<and> off \<le> off + n
        \<and> readi ip False dst off n k = Inr (r, bytes, k') \<longrightarrow>
        length bytes = min (unat n) (unat (i_size (itable k ip)) - unat off)
        \<and> r = sint (word_of_nat (min (unat n) (unat (i_size (itable k ip)) - unat off)) :: 32 word)
        \<and> (min (unat n) (unat (i_size (itable k ip)) - unat off) < 2 ^ 31 \<longrightarrow>
             r = int (min (unat n) (unat (i_size (itable k ip)) - unat off))))"
proof (intro conjI impI)
  assume "i_size (itable k ip) < off \<or> off + n < off"
  then show "readi ip False dst off n k = Inr (- 1, [], k)" by (auto simp add: readi_def)
next
  assume a: "off \<le> i_size (itable k ip) \<and> off \<le> off + n
             \<and> readi ip False dst off n k = Inr (r, bytes, k')"
  define sz where "sz = i_size (itable k ip)"
  define cnt where "cnt = min (unat n) (unat sz - unat off)"
  define n1 where "n1 = (if sz < off + n then sz - off else n)"
  have ok: "\<not> (sz < off \<or> off + n < off)" using a by (auto simp add: sz_def not_less)
  have sum: "unat (off + n) = unat off + unat n"
    using a by (simp add: unat_plus_simple)
  have n1: "unat n1 = cnt"
  proof (cases "sz < off + n")
    case True
    then have "unat sz < unat off + unat n" using sum by (simp add: word_less_nat_alt)
    moreover have "unat (sz - off) = unat sz - unat off"
      using a by (simp add: unat_sub sz_def)
    moreover have "unat off \<le> unat sz" using a by (simp add: word_le_nat_alt sz_def)
    ultimately show ?thesis using True by (simp add: n1_def cnt_def min_def)
  next
    case False
    then have "unat off + unat n \<le> unat sz" using sum by (simp add: word_less_nat_alt not_less)
    then show ?thesis using False by (simp add: n1_def cnt_def min_def)
  qed
  have "readi_loop ip False dst (unat off) (unat n1) 0 [] k = Inr (r, bytes, k')"
    using a ok
    by (cases "i_size (itable k ip) < off + n") (simp_all add: readi_def sz_def n1_def Let_def)
  with n1 have run: "readi_loop ip False dst (unat off) cnt 0 [] k = Inr (r, bytes, k')"
    by simp
  from readi_loop_kernel_count [OF run]
  have res: "length bytes = cnt" "r = sint (word_of_nat cnt :: 32 word)" by simp_all
  have small: "r = int cnt" if "cnt < 2 ^ 31"
  proof -
    have "sint (word_of_nat cnt :: 32 word) = int cnt"
      using that by (simp add: signed_of_nat signed_take_bit_int_eq_self)
    with res show ?thesis by simp
  qed
  from res
  show "length bytes = min (unat n) (unat (i_size (itable k ip)) - unat off)"
    by (simp add: cnt_def sz_def)
  from res
  show "r = sint (word_of_nat (min (unat n) (unat (i_size (itable k ip)) - unat off)) :: 32 word)"
    by (simp add: cnt_def sz_def)
  assume "min (unat n) (unat (i_size (itable k ip)) - unat off) < 2 ^ 31"
  with small
  show "r = int (min (unat n) (unat (i_size (itable k ip)) - unat off))"
    by (simp add: cnt_def sz_def)
qed

lemma example_bmap_file: "bmap 2 0 example_kernel = Inr (47, example_kernel)"
  by (simp add: bmap_def example_kernel_def example_itable_def NDIRECT_def)

lemma example_readi:
  "readi 2 False 0 2 10 example_kernel = Inr (3, [108, 108, 111], example_kernel)"
proof -
  have "readi 2 False 0 2 10 example_kernel = readi_loop 2 False 0 2 3 0 [] example_kernel"
    by (simp add: readi_def Let_def example_kernel_def example_itable_def)
  also have "\<dots> = Inr (3, map (blocks example_kernel 47) [2..<5], example_kernel)"
    by (simp add: readi_loop.simps example_bmap_file BLOCK_SIZE_def Let_def)
  also have "map (blocks example_kernel 47) [2..<5] = [108, 108, 111]"
    by (simp add: example_kernel_def example_blocks_def byte_at_def upt_rec)
  finally show ?thesis .
qed

theorem readi_kernel_buffer_witness:
  "(2 :: 32 word) \<le> i_size (itable example_kernel 2) \<and> (2 :: 32 word) \<le> 2 + 10
   \<and> readi 2 False 0 2 10 example_kernel = Inr (3, [108, 108, 111], example_kernel)
   \<and> min (unat (10 :: 32 word)) (unat (i_size (itable example_kernel 2)) - unat (2 :: 32 word)) = 3
   \<and> i_size (itable example_kernel 2) < 6
   \<and> readi 2 False 0 6 10 example_kernel = Inr (- 1, [], example_kernel)"
proof -
  have sz: "i_size (itable example_kernel 2) = 5"
    by (simp add: example_kernel_def example_itable_def)
  from readi_kernel_buffer [of example_kernel 2 2 10 0 3 "[108, 108, 111]" example_kernel]
    readi_kernel_buffer [of example_kernel 2 6 10 0] example_readi sz
  show ?thesis by simp
qed

section \<open>\<open>dirlink\<close> on a name that exists\<close>

lemma readi_loop_mapped:
  "readi_loop ip user_dst dst off n tot kdst k = Inr (r, bytes, k') \<Longrightarrow> \<not> user_dst \<Longrightarrow>
     (\<forall>bn. bn * BLOCK_SIZE < off + n \<longrightarrow> (\<exists>b. bmap ip bn k = Inr (b, k))) \<Longrightarrow> k' = k"
proof (induction ip user_dst dst off n tot kdst k rule: readi_loop.induct)
  case (1 ip user_dst dst off n tot kdst k)
  from "1.prems" have u: "user_dst = False" by simp
  show ?case
  proof (cases "tot < n")
    case False
    then have "readi_loop ip user_dst dst off n tot kdst k = Inr (sint (word_of_nat n :: 32 word), kdst, k)"
      by (subst readi_loop.simps) simp
    with "1.prems" show ?thesis by simp
  next
    case True
    define m where "m = min (n - tot) (BLOCK_SIZE - (off + tot) mod BLOCK_SIZE)"
    have "(off + tot) div BLOCK_SIZE * BLOCK_SIZE \<le> off + tot" by simp
    with True have "(off + tot) div BLOCK_SIZE * BLOCK_SIZE < off + n" by linarith
    with "1.prems"(3) obtain b where
      bm: "bmap ip ((off + tot) div BLOCK_SIZE) k = Inr (b, k)" by blast
    from "1.prems"(1) True u bm have
      rec: "readi_loop ip False dst off n (tot + m)
              (kdst @ map (blocks k b) [(off + tot) mod BLOCK_SIZE..<(off + tot) mod BLOCK_SIZE + m]) k
            = Inr (r, bytes, k')"
      by (simp add: readi_loop.simps [of ip False dst off n tot] Let_def m_def)
    with u have rec': "readi_loop ip user_dst dst off n (tot + m)
              (kdst @ map (blocks k b) [(off + tot) mod BLOCK_SIZE..<(off + tot) mod BLOCK_SIZE + m]) k
            = Inr (r, bytes, k')"
      by simp
    from "1.IH"(2) [OF True bm refl refl refl refl "1.prems"(2) rec' [unfolded m_def]
        "1.prems"(2) "1.prems"(3)]
    show ?thesis .
  qed
qed

lemma readi_mapped:
  assumes "readi ip False dst off n k = Inr (r, bytes, k')"
    and "\<forall>bn. bn * BLOCK_SIZE < unat (i_size (itable k ip)) \<longrightarrow> (\<exists>b. bmap ip bn k = Inr (b, k))"
  shows "k' = k"
proof (cases "i_size (itable k ip) < off \<or> off + n < off")
  case True
  with assms(1) show ?thesis by (simp add: readi_def)
next
  case False
  define n1 where "n1 = (if i_size (itable k ip) < off + n then i_size (itable k ip) - off else n)"
  have le: "unat off + unat n1 \<le> unat (i_size (itable k ip))"
  proof (cases "i_size (itable k ip) < off + n")
    case True
    moreover have "unat (i_size (itable k ip) - off) = unat (i_size (itable k ip)) - unat off"
      using False by (simp add: unat_sub not_less)
    moreover have "unat off \<le> unat (i_size (itable k ip))"
      using False by (simp add: word_le_nat_alt not_less)
    ultimately show ?thesis by (simp add: n1_def)
  next
    case nlt: False
    have "unat (off + n) = unat off + unat n"
      using False by (simp add: unat_plus_simple not_less)
    with nlt show ?thesis by (simp add: n1_def word_less_nat_alt not_less)
  qed
  from assms(1) False
  have run: "readi_loop ip False dst (unat off) (unat n1) 0 [] k = Inr (r, bytes, k')"
    by (cases "i_size (itable k ip) < off + n") (simp_all add: readi_def n1_def Let_def)
  have "\<forall>bn. bn * BLOCK_SIZE < unat off + unat n1 \<longrightarrow> (\<exists>b. bmap ip bn k = Inr (b, k))"
    using assms(2) le by (meson less_le_trans)
  with readi_loop_mapped [OF run] show ?thesis by simp
qed

lemma iget_effect:
  assumes "iget dev inum k = Inr (ip, k1)"
  shows "i_ref (itable k1 ip) = i_ref (itable k ip) + 1
         \<and> (\<forall>j. j \<noteq> ip \<longrightarrow> itable k1 j = itable k j)
         \<and> blocks k1 = blocks k \<and> dinodes k1 = dinodes k \<and> lg k1 = lg k"
proof (cases "find (\<lambda>i. 0 < i_ref (itable k i) \<and> i_dev (itable k i) = dev \<and> i_inum (itable k i) = inum)
                [0..<NINODE]")
  case (Some i)
  with assms show ?thesis by (auto simp add: iget_def)
next
  case None
  with assms obtain i where
    f: "find (\<lambda>i. i_ref (itable k i) = 0) [0..<NINODE] = Some i"
    by (auto simp add: iget_def split: option.splits)
  then have "i_ref (itable k i) = 0" by (auto simp add: find_Some_iff)
  with assms None f show ?thesis by (auto simp add: iget_def)
qed

lemma dirlookup_loop_found:
  assumes "\<forall>bn. bn * BLOCK_SIZE < unat (i_size (itable k dp)) \<longrightarrow> (\<exists>b. bmap dp bn k = Inr (b, k))"
  shows "dirlookup_loop dp name offs k = Inr (Some (ip, off), k1) \<Longrightarrow>
           \<exists>inum. iget (i_dev (itable k dp)) inum k = Inr (ip, k1)"
proof (induction offs)
  case Nil
  then show ?case by simp
next
  case (Cons o1 offs)
  from Cons.prems obtain r de k2 where
    rd: "readi dp False 0 o1 16 k = Inr (r, de, k2)"
    by (auto split: sum.splits)
  from readi_mapped [OF rd assms] have k2: "k2 = k" .
  show ?case
  proof (cases "de_inum de \<noteq> 0 \<and> namecmp name (de_name de) = 0")
    case True
    with Cons.prems rd k2 have "iget (i_dev (itable k dp)) (de_inum de) k = Inr (ip, k1)"
      by (auto split: sum.splits if_splits)
    then show ?thesis by blast
  next
    case False
    with Cons.prems rd k2 have "dirlookup_loop dp name offs k = Inr (Some (ip, off), k1)"
      by (auto split: sum.splits if_splits)
    with Cons.IH show ?thesis .
  qed
qed

text \<open>
  Claim C9.  When the \<open>dirlookup\<close> call of \<open>dirlink(dp, name, inum)\<close> finds \<open>name\<close> (in a
  directory whose blocks are all allocated, so that reading it allocates nothing), \<open>dirlink\<close>
  returns \<open>-1\<close>; the blocks, the on-disk inodes and the log are as before, so the directory's
  content is unchanged; the reference count of the found entry's inode is one more than
  before the call, in the state that \<open>dirlink\<close> returns, and no other inode has changed.
\<close>

theorem dirlink_existing_leaks_ref:
  assumes "\<forall>bn. bn * BLOCK_SIZE < unat (i_size (itable k dp)) \<longrightarrow> (\<exists>b. bmap dp bn k = Inr (b, k))"
    and "dirlookup dp name k = Inr (Some (ip, off), k1)"
  shows "dirlink dp name inum k = Inr (- 1, k1)
         \<and> blocks k1 = blocks k \<and> dinodes k1 = dinodes k \<and> lg k1 = lg k
         \<and> i_ref (itable k1 ip) = i_ref (itable k ip) + 1
         \<and> (\<forall>j. j \<noteq> ip \<longrightarrow> itable k1 j = itable k j)"
proof -
  from assms(2) have ret: "dirlink dp name inum k = Inr (- 1, k1)"
    by (simp add: dirlink_def)
  from assms(2) have "dirlookup_loop dp name (dir_offsets (i_size (itable k dp))) k
                        = Inr (Some (ip, off), k1)"
    by (simp add: dirlookup_def split: if_splits)
  from dirlookup_loop_found [OF assms(1) this] obtain inum' where
    "iget (i_dev (itable k dp)) inum' k = Inr (ip, k1)" by blast
  from iget_effect [OF this] ret show ?thesis by simp
qed

lemma example_root_mapped:
  "\<forall>bn. bn * BLOCK_SIZE < unat (i_size (itable example_root 0)) \<longrightarrow>
      (\<exists>b. bmap 0 bn example_root = Inr (b, example_root))"
proof (intro allI impI)
  fix bn assume "bn * BLOCK_SIZE < unat (i_size (itable example_root 0))"
  then have "bn = 0" by (simp add: example_root_def BLOCK_SIZE_def)
  then show "\<exists>b. bmap 0 bn example_root = Inr (b, example_root)"
    by (simp add: bmap_def example_root_def NDIRECT_def)
qed

lemma example_root_entry:
  "j < 4 \<Longrightarrow> readi 0 False 0 (word_of_nat (16 * j)) 16 example_root
     = Inr (16, take 16 (drop (16 * j) example_dir), example_root)"
proof -
  assume j: "j < 4"
  then have j4: "j = 0 \<or> j = 1 \<or> j = 2 \<or> j = 3" by auto
  have bm: "bmap 0 0 example_root = Inr (46, example_root)"
    by (simp add: bmap_def example_root_def NDIRECT_def)
  have b46: "blocks example_root 46 = byte_at example_dir"
    by (simp add: example_root_def example_kernel_def example_blocks_def)
  have sz: "i_size (itable example_root 0) = 64" by (simp add: example_root_def)
  have len: "length example_dir = 64" by (simp add: example_dir_def make_dirent_def DIRSIZ_def)
  from j4 have "readi 0 False 0 (word_of_nat (16 * j)) 16 example_root
     = Inr (16, map (byte_at example_dir) [16 * j..<16 * j + 16], example_root)"
    by (auto simp add: readi_def sz Let_def readi_loop.simps bm BLOCK_SIZE_def b46)
  moreover have "map (byte_at example_dir) [16 * j..<16 * j + 16] = take 16 (drop (16 * j) example_dir)"
    using j4 len by (auto simp add: list_eq_iff_nth_eq byte_at_def)
  ultimately show ?thesis by simp
qed

lemma example_dirlookup:
  "dirlookup 0 [97] example_root = Inr (Some (2, 32), example_root_found)"
proof -
  have offs: "dir_offsets (i_size (itable example_root 0)) = [0, 16, 32, 48]"
    by (simp add: dir_offsets_def example_root_def upt_rec)
  have ty: "i_type (itable example_root 0) = T_DIR" by (simp add: example_root_def)
  have e0: "take 16 example_dir = make_dirent [46] 1"
    and e1: "take 16 (drop 16 example_dir) = make_dirent [46, 46] 1"
    and e2: "take 16 (drop 32 example_dir) = make_dirent [97] 2"
    by (simp_all add: example_dir_def make_dirent_def DIRSIZ_def)
  have ig: "iget (i_dev (itable example_root 0)) 2 example_root = Inr (2, example_root_found)"
    by (simp add: iget_def example_root_def example_kernel_def example_itable_def NINODE_def
        upt_rec free_inode_def example_root_found_def T_SYMLINK_def)
       (simp add: numeral_2_eq_2)
  show ?thesis
    using example_root_entry [of 0] example_root_entry [of 1] example_root_entry [of 2]
    by (simp add: dirlookup_def ty offs e0 e1 e2 make_dirent_def DIRSIZ_def de_inum_def
        byte_at_def de_name_def namecmp_def upt_rec ig)
qed

theorem dirlink_existing_leaks_ref_witness:
  "unat (i_size (itable example_root 0)) = 64
   \<and> bmap 0 0 example_root = Inr (46, example_root)
   \<and> dirlookup 0 [97] example_root = Inr (Some (2, 32), example_root_found)
   \<and> dirlink 0 [97] 9 example_root = Inr (- 1, example_root_found)
   \<and> blocks example_root_found = blocks example_root
   \<and> i_ref (itable example_root 2) = 1
   \<and> i_ref (itable example_root_found 2) = 2"
proof -
  have r: "i_ref (itable example_root 2) = 1"
    by (simp add: example_root_def example_itable_def)
  have m: "unat (i_size (itable example_root 0)) = 64"
    "bmap 0 0 example_root = Inr (46, example_root)"
    by (simp_all add: bmap_def example_root_def NDIRECT_def)
  from dirlink_existing_leaks_ref [OF example_root_mapped example_dirlookup, of 9]
    example_dirlookup r m
  show ?thesis by simp
qed

section \<open>Symbolic links at the depth limit\<close>

lemma dir_entry_read:
  assumes "i_size (itable k dp) = 64" "i_addrs (itable k dp) 0 = 46"
    "blocks k 46 = byte_at example_dir" "j < 4"
  shows "readi dp False 0 (word_of_nat (16 * j)) 16 k
     = Inr (16, take 16 (drop (16 * j) example_dir), k)"
proof -
  from assms(4) have j4: "j = 0 \<or> j = 1 \<or> j = 2 \<or> j = 3" by auto
  have bm: "bmap dp 0 k = Inr (46, k)"
    using assms(2) by (simp add: bmap_def NDIRECT_def)
  have len: "length example_dir = 64" by (simp add: example_dir_def make_dirent_def DIRSIZ_def)
  from j4 have "readi dp False 0 (word_of_nat (16 * j)) 16 k
     = Inr (16, map (byte_at example_dir) [16 * j..<16 * j + 16], k)"
    by (auto simp add: readi_def assms(1) Let_def readi_loop.simps bm BLOCK_SIZE_def assms(3))
  moreover have "map (byte_at example_dir) [16 * j..<16 * j + 16] = take 16 (drop (16 * j) example_dir)"
    using j4 len by (auto simp add: list_eq_iff_nth_eq byte_at_def)
  ultimately show ?thesis by simp
qed

lemma skipelem_l: "skipelem ''l'' = Some (108 # replicate 13 0, [])"
  by (simp add: skipelem_def Let_def DIRSIZ_def)

lemma dirlookup_l:
  assumes "i_type (itable k dp) = T_DIR" "i_size (itable k dp) = 64" "i_addrs (itable k dp) 0 = 46"
    "blocks k 46 = byte_at example_dir"
  shows "dirlookup dp (108 # replicate 13 0) k =
           (case iget (i_dev (itable k dp)) 3 k of
              Inl err \<Rightarrow> Inl err
            | Inr (ip, k2) \<Rightarrow> Inr (Some (ip, 48), k2))"
proof -
  have offs: "dir_offsets (i_size (itable k dp)) = [0, 16, 32, 48]"
    by (simp add: dir_offsets_def assms(2) upt_rec)
  have e0: "take 16 example_dir = make_dirent [46] 1"
    and e1: "take 16 (drop 16 example_dir) = make_dirent [46, 46] 1"
    and e2: "take 16 (drop 32 example_dir) = make_dirent [97] 2"
    and e3: "take 16 (drop 48 example_dir) = make_dirent [108] 3"
    by (simp_all add: example_dir_def make_dirent_def DIRSIZ_def)
  show ?thesis
    using dir_entry_read [OF assms(2,3,4), of 0] dir_entry_read [OF assms(2,3,4), of 1]
      dir_entry_read [OF assms(2,3,4), of 2] dir_entry_read [OF assms(2,3,4), of 3]
    by (simp add: dirlookup_def assms(1) offs e0 e1 e2 e3 make_dirent_def DIRSIZ_def de_inum_def
        byte_at_def de_name_def namecmp_def upt_rec)
qed


lemma cycle_state:
  "i_type (itable example_cycle 0) = T_DIR" "i_size (itable example_cycle 0) = 64"
  "i_addrs (itable example_cycle 0) 0 = 46" "blocks example_cycle 46 = byte_at example_dir"
  by (simp_all add: example_cycle_def example_kernel_def example_blocks_def)

lemma cycle_iget:
  "iget 1 3 (example_cycle\<lparr>itable := (itable example_cycle)(0 := (itable example_cycle 0)\<lparr>i_locked := True\<rparr>)\<rparr>)
     = Inr (1, example_cycle\<lparr>itable := (itable example_cycle)
                (0 := (itable example_cycle 0)\<lparr>i_locked := True\<rparr>,
                 1 := (itable example_cycle 1)\<lparr>i_ref := 1, i_valid := 0\<rparr>)\<rparr>)"
  by (simp add: iget_def example_cycle_def example_kernel_def example_itable_def NINODE_def
        upt_rec free_inode_def T_SYMLINK_def T_DIR_def)

lemma cycle_round:
  assumes "d < MAX_SYMLINK_DEPTH"
  shows "namex_from 0 ''l'' False d example_cycle = namex_from 0 ''l'' False (d + 1) example_cycle"
proof -
  define k1 where "k1 = example_cycle\<lparr>itable := (itable example_cycle)(0 := (itable example_cycle 0)\<lparr>i_locked := True\<rparr>)\<rparr>"
  have il: "ilock 0 example_cycle = Inr k1"
    by (simp add: ilock_def Let_def k1_def example_cycle_def)
  have k1s: "i_type (itable k1 0) = T_DIR" "i_size (itable k1 0) = 64"
    "i_addrs (itable k1 0) 0 = 46" "blocks k1 46 = byte_at example_dir" "i_dev (itable k1 0) = 1"
    using cycle_state by (simp_all add: k1_def example_cycle_def)
  note dl = dirlookup_l [OF k1s(1-4), unfolded k1s(5), unfolded k1_def cycle_iget]
  define k3 where "k3 = example_cycle\<lparr>itable := (itable example_cycle)
                (1 := (itable example_cycle 1)\<lparr>i_ref := 1, i_valid := 0\<rparr>)\<rparr>"
  define k4 where "k4 = example_cycle\<lparr>itable := (itable example_cycle)
                (1 := (itable example_cycle 1)\<lparr>i_ref := 1, i_locked := True\<rparr>)\<rparr>"
  define k5 where "k5 = example_cycle\<lparr>itable := (itable example_cycle)
                (1 := (itable example_cycle 1)\<lparr>i_ref := 1\<rparr>)\<rparr>"
  have iu: "iunlock 0 (example_cycle\<lparr>itable := (itable example_cycle)
                (0 := (itable example_cycle 0)\<lparr>i_locked := True\<rparr>,
                 1 := (itable example_cycle 1)\<lparr>i_ref := 1, i_valid := 0\<rparr>)\<rparr>) = Inr k3"
    by (simp add: iunlock_def Let_def k3_def example_cycle_def fun_upd_twist)
  have ty: "i_type (itable k3 1) = T_SYMLINK" by (simp add: k3_def example_cycle_def)
  have il1: "ilock 1 k3 = Inr k4"
    by (simp add: ilock_def Let_def k3_def k4_def example_cycle_def example_kernel_def
        example_dinodes_def T_SYMLINK_def)
  have st: "i_size (itable k4 1) = 2" by (simp add: k4_def example_cycle_def)
  have bm: "bmap 1 0 k4 = Inr (48, k4)"
    by (simp add: bmap_def NDIRECT_def k4_def example_cycle_def)
  have b48: "blocks k4 48 = byte_at [108, 0]"
    by (simp add: k4_def example_cycle_def example_kernel_def example_blocks_def)
  have rd: "readi 1 False 0 0 2 k4 = Inr (2, [108, 0], k4)"
    by (simp add: readi_def st [unfolded One_nat_def] Let_def readi_loop.simps
        bm [unfolded One_nat_def] BLOCK_SIZE_def b48 byte_at_def upt_rec)
  have iu1: "iunlock 1 k4 = Inr k5"
    by (simp add: iunlock_def Let_def k4_def k5_def example_cycle_def)
  have ip1: "iput 1 k5 = Inr example_cycle"
    by (simp add: iput_def k5_def example_cycle_def)
  have "char_of (108 :: nat) = CHR ''l''" by code_simp
  then have lt: "link_target [108, 0] = ''l''"
    by (simp add: link_target_def)
  have bs: "build_symlink_path ''l'' [] = Some ''l''"
    by (simp add: build_symlink_path_def safestrcpy_def MAXPATH_def)
  from assms have nd: "\<not> MAX_SYMLINK_DEPTH \<le> d" by simp
  show ?thesis
    apply (subst namex_from.simps)
    apply (simp add: skipelem_l il k1s(1))
    apply (simp add: k1_def dl iu [unfolded One_nat_def] ty [unfolded One_nat_def] nd
        il1 [unfolded One_nat_def] st [unfolded One_nat_def] MAXPATH_def rd [unfolded One_nat_def]
        iu1 [unfolded One_nat_def] ip1 [unfolded One_nat_def] lt bs)
    done
qed

lemma cycle_limit:
  "namex_from 0 ''l'' False MAX_SYMLINK_DEPTH example_cycle = Inl (Panic ''iunlock'')"
proof -
  define k1 where "k1 = example_cycle\<lparr>itable := (itable example_cycle)(0 := (itable example_cycle 0)\<lparr>i_locked := True\<rparr>)\<rparr>"
  have il: "ilock 0 example_cycle = Inr k1"
    by (simp add: ilock_def Let_def k1_def example_cycle_def)
  have k1s: "i_type (itable k1 0) = T_DIR" "i_size (itable k1 0) = 64"
    "i_addrs (itable k1 0) 0 = 46" "blocks k1 46 = byte_at example_dir" "i_dev (itable k1 0) = 1"
    using cycle_state by (simp_all add: k1_def example_cycle_def)
  note dl = dirlookup_l [OF k1s(1-4), unfolded k1s(5), unfolded k1_def cycle_iget]
  define k3 where "k3 = example_cycle\<lparr>itable := (itable example_cycle)
                (1 := (itable example_cycle 1)\<lparr>i_ref := 1, i_valid := 0\<rparr>)\<rparr>"
  have iu: "iunlock 0 (example_cycle\<lparr>itable := (itable example_cycle)
                (0 := (itable example_cycle 0)\<lparr>i_locked := True\<rparr>,
                 1 := (itable example_cycle 1)\<lparr>i_ref := 1, i_valid := 0\<rparr>)\<rparr>) = Inr k3"
    by (simp add: iunlock_def Let_def k3_def example_cycle_def fun_upd_twist)
  have ty: "i_type (itable k3 1) = T_SYMLINK" by (simp add: k3_def example_cycle_def)
  have nl: "iunlock 1 k3 = Inl (Panic ''iunlock'')"
    by (simp add: iunlock_def Let_def k3_def example_cycle_def)
  show ?thesis
    apply (subst namex_from.simps)
    apply (simp add: skipelem_l il k1s(1))
    apply (simp add: k1_def dl iu [unfolded One_nat_def] ty [unfolded One_nat_def]
        fail_unlockput_put_def iunlockput_def nl [unfolded One_nat_def])
    done
qed

lemma cycle_start:
  "namex ''l'' False example_kernel = namex_from 0 ''l'' False 1 example_cycle"
proof -
  define k0 where "k0 = example_kernel\<lparr>itable := example_itable
     (0 := free_inode\<lparr>i_dev := 1, i_inum := 1, i_ref := 1, i_valid := 0\<rparr>)\<rparr>"
  have ig: "iget ROOTDEV ROOTINO example_kernel = Inr (0, k0)"
    by (simp add: iget_def ROOTDEV_def ROOTINO_def example_kernel_def example_itable_def
        NINODE_def upt_rec free_inode_def k0_def)
  define k1 where "k1 = example_cycle\<lparr>itable := example_itable
                (0 := (itable example_cycle 0)\<lparr>i_locked := True\<rparr>)\<rparr>"
  have il: "ilock 0 k0 = Inr k1"
    by (simp add: ilock_def Let_def k0_def k1_def example_cycle_def example_kernel_def
        example_dinodes_def free_inode_def T_DIR_def)
  have k1s: "i_type (itable k1 0) = T_DIR" "i_size (itable k1 0) = 64"
    "i_addrs (itable k1 0) 0 = 46" "blocks k1 46 = byte_at example_dir" "i_dev (itable k1 0) = 1"
    by (simp_all add: k1_def example_cycle_def example_kernel_def example_blocks_def)
  have ig3: "iget 1 3 k1 = Inr (1, k1\<lparr>itable := (itable k1)
                 (1 := (itable k1 1)\<lparr>i_dev := 1, i_inum := 3, i_ref := 1, i_valid := 0\<rparr>)\<rparr>)"
    by (simp add: iget_def k1_def example_cycle_def example_kernel_def example_itable_def NINODE_def
        upt_rec free_inode_def T_SYMLINK_def T_DIR_def)
  note dl = dirlookup_l [OF k1s(1-4), unfolded k1s(5) ig3]
  define k3 where "k3 = example_cycle\<lparr>itable := (itable example_cycle)
                (1 := (itable example_cycle 1)\<lparr>i_ref := 1, i_valid := 0, i_size := 0, i_nlink := 0,
                       i_addrs := (\<lambda>_. 0)\<rparr>)\<rparr>"
  have iu: "iunlock 0 (k1\<lparr>itable := (itable k1)
                 (1 := (itable k1 1)\<lparr>i_dev := 1, i_inum := 3, i_ref := 1, i_valid := 0\<rparr>)\<rparr>) = Inr k3"
    by (simp add: iunlock_def Let_def k1_def k3_def example_cycle_def example_itable_def
        free_inode_def fun_upd_twist)
  define k4 where "k4 = example_cycle\<lparr>itable := (itable example_cycle)
                (1 := (itable example_cycle 1)\<lparr>i_ref := 1, i_locked := True\<rparr>)\<rparr>"
  define k5 where "k5 = example_cycle\<lparr>itable := (itable example_cycle)
                (1 := (itable example_cycle 1)\<lparr>i_ref := 1\<rparr>)\<rparr>"
  have ty: "i_type (itable k3 1) = T_SYMLINK" by (simp add: k3_def example_cycle_def)
  have il1: "ilock 1 k3 = Inr k4"
    by (simp add: ilock_def Let_def k3_def k4_def example_cycle_def example_kernel_def
        example_dinodes_def T_SYMLINK_def)
  have st: "i_size (itable k4 1) = 2" by (simp add: k4_def example_cycle_def)
  have bm: "bmap 1 0 k4 = Inr (48, k4)"
    by (simp add: bmap_def NDIRECT_def k4_def example_cycle_def)
  have b48: "blocks k4 48 = byte_at [108, 0]"
    by (simp add: k4_def example_cycle_def example_kernel_def example_blocks_def)
  have rd: "readi 1 False 0 0 2 k4 = Inr (2, [108, 0], k4)"
    by (simp add: readi_def st [unfolded One_nat_def] Let_def readi_loop.simps
        bm [unfolded One_nat_def] BLOCK_SIZE_def b48 byte_at_def upt_rec)
  have iu1: "iunlock 1 k4 = Inr k5"
    by (simp add: iunlock_def Let_def k4_def k5_def example_cycle_def)
  have ip1: "iput 1 k5 = Inr example_cycle"
    by (simp add: iput_def k5_def example_cycle_def)
  have "char_of (108 :: nat) = CHR ''l''" by code_simp
  then have lt: "link_target [108, 0] = ''l''"
    by (simp add: link_target_def)
  have bs: "build_symlink_path ''l'' [] = Some ''l''"
    by (simp add: build_symlink_path_def safestrcpy_def MAXPATH_def)
  have c: "cwd example_kernel = None" by (simp add: example_kernel_def)
  show ?thesis
    apply (simp add: namex_def c ig)
    apply (subst namex_from.simps)
    apply (simp add: skipelem_l il k1s(1))
    apply (simp add: dl iu [unfolded One_nat_def] ty [unfolded One_nat_def] MAX_SYMLINK_DEPTH_def
        il1 [unfolded One_nat_def] st [unfolded One_nat_def] MAXPATH_def rd [unfolded One_nat_def]
        iu1 [unfolded One_nat_def] ip1 [unfolded One_nat_def] lt bs)
    done
qed

text \<open>
  Claim C7.  Path resolution is a total function (the termination proof of \<open>namex_from\<close>:
  every expansion of a link raises \<open>depth\<close>, which is bounded by \<open>MAX_SYMLINK_DEPTH\<close>, and
  every other step shortens the path).  At the limit, however, it does not return the null
  pointer: with \<open>depth >= MAX_SYMLINK_DEPTH\<close> the code calls \<open>iunlockput\<close> on the link's
  inode, which it has not locked, and \<open>iunlock\<close> panics.  Resolving the link \<open>l\<close> of the
  example system, which points to itself, expands it eight times and then panics.
\<close>

theorem namei_cyclic_symlink_panics:
  "namei ''l'' example_kernel = Inl (Panic ''iunlock'')"
proof -
  have "namex ''l'' False example_kernel = namex_from 0 ''l'' False 8 example_cycle"
    using cycle_round [of 1] cycle_round [of 2] cycle_round [of 3] cycle_round [of 4]
      cycle_round [of 5] cycle_round [of 6] cycle_round [of 7]
    by (simp add: cycle_start MAX_SYMLINK_DEPTH_def)
  with cycle_limit show ?thesis by (simp add: namei_def MAX_SYMLINK_DEPTH_def)
qed

section \<open>User buffers of \<open>read\<close> and \<open>write\<close>\<close>

lemma PGROUNDDOWN_le: "PGROUNDDOWN a \<le> a"
  by (simp add: PGROUNDDOWN_def word_and_le2)






























section \<open>\<open>uvmcopy\<close>\<close>























































































section \<open>Page faults from user mode\<close>





















end
